theory Spec2Isabelle
  imports Main "HOL-Library.Char_ord" "HOL-Library.List_Lexorder"
begin

section \<open>Data model of \<open>overlords/core/queen_bunker.ts\<close>\<close>

text \<open>
  Resource kinds are the game's resource constants, which are strings. Amounts are
  JavaScript numbers that are always integral in the game; they are modelled as
  \<open>int\<close>, so that \<open>carryCapacity - _.sum(queenCarry)\<close> is an ordinary subtraction.
\<close>

type_synonym resourceConstant = string

text \<open>
  A JavaScript object used as a dictionary from resource kinds to numbers
  (\<open>creep.carry\<close>, \<open>structure.store\<close>, the local \<open>queenCarry\<close>): its entries in
  insertion order, which is the order \<open>_.keys\<close> enumerates (resource constants are
  never integer-like keys). Reading a key is \<open>map_of\<close>; a missing key is \<open>undefined\<close>.
\<close>

type_synonym storeDefinition = "(resourceConstant \<times> int) list"

datatype roomPosition = RoomPosition (pos_x: int) (pos_y: int) (pos_roomName: string)

record roomObject =
  pos :: roomPosition

record "structure" = roomObject +
  struc_id :: string
  structureType :: string
  store :: storeDefinition

record transportRequest =
  target :: "structure"
  resourceType :: resourceConstant
  amount :: int

record transportRequestGroup =
  supplyByID :: "string \<Rightarrow> transportRequest list option"
  withdrawByID :: "string \<Rightarrow> transportRequest list option"

text \<open>
  Modelled from the spec: the task constructors of \<open>tasks/Tasks\<close>, which is not part of
  the source at hand. The spec's Operation is "transfer all carried resources to structure
  S", "transfer amount A of resource R to structure S" or "withdraw amount A of resource R
  from structure S".
\<close>

datatype task =
    Tasks_transferAll "structure"
  | Tasks_transfer "structure" resourceConstant int
  | Tasks_withdraw "structure" resourceConstant int

text \<open>
  Modelled from the spec: \<open>Tasks.chain\<close> of \<open>tasks/Tasks\<close>. The spec's TaskManifest is "an
  ordered sequence of Operations forming a single chain"; the constructor stands for the
  call \<open>Tasks.chain(tasks)\<close> and keeps the list it is given.
\<close>

datatype manifest = Tasks_chain "task list"

fun chained :: "manifest \<Rightarrow> task list" where
  "chained (Tasks_chain ts) = ts"

text \<open>
  Modelled from the spec: the \<open>Zerg\<close> wrapper of \<open>zerg/Zerg\<close>. The spec's TransportAgent
  has an identity, a position, a carry capacity, a current carry, an activity flag and an
  assigned task; \<open>task = None\<close> is JavaScript's \<open>null\<close>.
\<close>

record zerg = roomObject +
  name :: string
  carry :: storeDefinition
  carryCapacity :: int
  spawning :: bool
  task :: "manifest option"

text \<open>
  Modelled from the spec: the getter \<open>Zerg.isIdle\<close>. The spec has a failed build "yield no
  manifest, which the Dispatcher treats as remain idle", and an agent mid-chain is not idle.
\<close>

definition isIdle :: "zerg \<Rightarrow> bool" where
  "isIdle queen = (task queen = None)"

text \<open>The three \<open>log.warning\<close> calls of the file, with the values they print.\<close>

datatype warning =
    NoTransferTargets string roomPosition
  | NoWithdrawTarget string roomPosition
  | NoChargingSpot roomPosition

text \<open>
  What the file reads of the colony and its room: \<open>colony.terminal\<close>, \<open>colony.storage\<close>,
  \<open>room.containers\<close>, \<open>colony.transportRequests\<close>, and the structures of the room, which
  \<open>pos.lookFor(LOOK_STRUCTURES)\<close> searches.
\<close>

record colony =
  terminal :: "structure option"
  storage :: "structure option"
  containers :: "structure list"
  roomStructures :: "structure list"
  colonyRequests :: transportRequestGroup

type_synonym coord = "int \<times> int"

record 'a quadrantMap =
  lowerRight :: 'a
  upperLeft :: 'a
  lowerLeft :: 'a
  upperRight :: 'a

text \<open>
  The imports from \<open>roomPlanner/layouts/bunker\<close> and \<open>movement/Pathing\<close>, which are not
  part of the source at hand, taken as parameters: the constants \<open>quadrantFillOrder\<close> and
  \<open>bunkerChargingSpots\<close>, the resolver \<open>getPosFromBunkerCoord\<close> and the test
  \<open>insideBunkerBounds\<close> (both already applied to the colony), and \<open>Pathing.distance\<close>.
\<close>

record bunker =
  quadrantFillOrder :: "coord list quadrantMap"
  bunkerChargingSpots :: "coord list"
  getPosFromBunkerCoord :: "coord \<Rightarrow> roomPosition"
  insideBunkerBounds :: "roomPosition \<Rightarrow> bool"
  distance :: "roomPosition \<Rightarrow> roomPosition \<Rightarrow> int"

text \<open>The fields of \<open>BunkerQueenOverlord\<close>; \<open>its_colony\<close> is \<open>this.colony\<close>.\<close>

record overlord =
  its_colony :: colony
  transportRequests :: transportRequestGroup
  queens :: "zerg list"
  storeStructures :: "structure list"
  batteries :: "structure list"
  quadrants :: "structure list quadrantMap"
  assignments :: "string \<Rightarrow> structure list option"

section \<open>Library functions the file calls\<close>

text \<open>\<open>x || 0\<close> on a number or \<open>undefined\<close>.\<close>

fun orZero :: "int option \<Rightarrow> int" where
  "orZero None = 0"
| "orZero (Some v) = v"

text \<open>\<open>!x\<close> on a number or \<open>undefined\<close>.\<close>

fun falsy :: "int option \<Rightarrow> bool" where
  "falsy None = True"
| "falsy (Some v) = (v = 0)"

text \<open>\<open>_.sum\<close> of an object: the sum of its values.\<close>

definition sum_values :: "storeDefinition \<Rightarrow> int" where
  "sum_values obj = sum_list (map snd obj)"

text \<open>\<open>obj[key] = v\<close>: an existing key keeps its place, a new one goes last.\<close>

fun setKey :: "storeDefinition \<Rightarrow> resourceConstant \<Rightarrow> int \<Rightarrow> storeDefinition" where
  "setKey [] k v = [(k, v)]"
| "setKey ((k', v') # rest) k v =
     (if k' = k then (k, v) # rest else (k', v') # setKey rest k v)"

text \<open>\<open>_.compact\<close> on a list whose only falsy entries are \<open>undefined\<close>.\<close>

fun compact :: "'a option list \<Rightarrow> 'a list" where
  "compact [] = []"
| "compact (None # xs) = compact xs"
| "compact (Some x # xs) = x # compact xs"

text \<open>\<open>_.first\<close>: \<open>undefined\<close> on an empty list.\<close>

fun first :: "'a list \<Rightarrow> 'a option" where
  "first [] = None"
| "first (x # xs) = Some x"

text \<open>\<open>a || b\<close> on objects or \<open>undefined\<close>.\<close>

fun orElse :: "'a option \<Rightarrow> 'a option \<Rightarrow> 'a option" where
  "orElse (Some a) b = Some a"
| "orElse None b = b"

text \<open>
  \<open>_.compact(_.flatten(_.map(assigned, struc => byID[struc.id])))\<close>: the request lists of
  the assigned structures, in order; a structure without an entry contributes nothing.
\<close>

definition requestsFor ::
  "(string \<Rightarrow> transportRequest list option) \<Rightarrow> structure list \<Rightarrow> transportRequest list" where
  "requestsFor byID assigned =
     concat (map (\<lambda>struc. case byID (struc_id struc) of None \<Rightarrow> [] | Some rs \<Rightarrow> rs) assigned)"

text \<open>
  Modelled from the spec: \<open>mergeSum\<close> of \<open>utilities/utils\<close>, which is not part of the
  source at hand. The spec's availability snapshot is to "sum resource stores across all
  designated reserve/store structures into a single availability map"; a resource no store
  lists has no entry.
\<close>

definition mergeSum :: "storeDefinition list \<Rightarrow> resourceConstant \<Rightarrow> int option" where
  "mergeSum stores r =
     (if list_ex (\<lambda>st. map_of st r \<noteq> None) stores
      then Some (sum_list (map (\<lambda>st. orZero (map_of st r)) stores))
      else None)"

text \<open>
  Modelled from the spec: \<open>minBy\<close> of \<open>utilities/utils\<close>, which is not part of the source
  at hand. The spec has the builder "pick the one minimizing travel distance"; the scan
  keeps the earliest of several nearest candidates.
\<close>

fun minByFrom :: "('a \<Rightarrow> int) \<Rightarrow> 'a \<Rightarrow> 'a list \<Rightarrow> 'a" where
  "minByFrom f best [] = best"
| "minByFrom f best (x # xs) = minByFrom f (if f x < f best then x else best) xs"

fun minBy :: "'a list \<Rightarrow> ('a \<Rightarrow> int) \<Rightarrow> 'a option" where
  "minBy [] f = None"
| "minBy (x # xs) f = Some (minByFrom f x xs)"

text \<open>
  \<open>this.assignments[queen.name]\<close> as lodash reads it: \<open>_.map\<close>, \<open>_.any\<close> and \<open>_.first\<close>
  treat \<open>undefined\<close> as the empty collection.
\<close>

definition assigned :: "overlord \<Rightarrow> zerg \<Rightarrow> structure list" where
  "assigned this queen =
     (case assignments this (name queen) of None \<Rightarrow> [] | Some strucs \<Rightarrow> strucs)"

section \<open>The manifest builders\<close>

text \<open>\<open>this.colony.terminal || this.colony.storage || this.batteries[0]\<close>.\<close>

definition transferTarget :: "overlord \<Rightarrow> structure option" where
  "transferTarget this =
     orElse (terminal (its_colony this)) (orElse (storage (its_colony this)) (first (batteries this)))"

text \<open>
  The update of the simulated carry:
  \<open>if (!queenCarry[rt]) queenCarry[rt] = 0; queenCarry[rt] += amount\<close>.
\<close>

definition addCarry :: "storeDefinition \<Rightarrow> resourceConstant \<Rightarrow> int \<Rightarrow> storeDefinition" where
  "addCarry queenCarry rt amt =
     (let queenCarry1 = (if falsy (map_of queenCarry rt) then setKey queenCarry rt 0 else queenCarry)
      in setKey queenCarry1 rt (orZero (map_of queenCarry1 rt) + amt))"

text \<open>
  The loop of lines 125 to 140 over the remaining requests, on the pair of the simulated
  carry and the supply tasks pushed so far. \<open>break\<close> returns the state, \<open>continue\<close> goes on
  with it unchanged.
\<close>

fun supplyLoop ::
  "int \<Rightarrow> (resourceConstant \<Rightarrow> int option) \<Rightarrow> transportRequest list \<Rightarrow>
   storeDefinition \<times> task list \<Rightarrow> storeDefinition \<times> task list" where
  "supplyLoop capacity allStore [] (queenCarry, supplyTasks) = (queenCarry, supplyTasks)"
| "supplyLoop capacity allStore (request # rest) (queenCarry, supplyTasks) =
     (let remainingAmount = capacity - sum_values queenCarry in
      if remainingAmount = 0 then (queenCarry, supplyTasks)
      else
        let amount0 = min (amount request) remainingAmount;
            amount1 = min amount0 (orZero (allStore (resourceType request)))
        in if amount1 = 0 then supplyLoop capacity allStore rest (queenCarry, supplyTasks)
           else supplyLoop capacity allStore rest
                  (addCarry queenCarry (resourceType request) amount1,
                   supplyTasks @ [Tasks_transfer (target request) (resourceType request) amount1]))"

text \<open>The loop of lines 182 to 196, on the simulated carry and the whole task list.\<close>

fun withdrawLoop ::
  "int \<Rightarrow> transportRequest list \<Rightarrow> storeDefinition \<times> task list \<Rightarrow> storeDefinition \<times> task list" where
  "withdrawLoop capacity [] (queenCarry, tasks) = (queenCarry, tasks)"
| "withdrawLoop capacity (request # rest) (queenCarry, tasks) =
     (let remainingAmount = capacity - sum_values queenCarry in
      if remainingAmount = 0 then (queenCarry, tasks)
      else
        let amount0 = min (amount request) remainingAmount
        in if amount0 = 0 then withdrawLoop capacity rest (queenCarry, tasks)
           else withdrawLoop capacity rest
                  (addCarry queenCarry (resourceType request) amount0,
                   tasks @ [Tasks_withdraw (target request) (resourceType request) amount0]))"

text \<open>
  Step 1 of \<open>buildSupplyTaskManifest\<close> (lines 106 to 118): the flush task, if any, and the
  position the queen will stand on afterwards.
\<close>

definition supplyFlush :: "overlord \<Rightarrow> zerg \<Rightarrow> warning + task list \<times> roomPosition" where
  "supplyFlush this queen =
     (if sum_values (carry queen) > 0 then
        (case transferTarget this of
           Some tt \<Rightarrow> Inr ([Tasks_transferAll tt], pos tt)
         | None \<Rightarrow> Inl (NoTransferTargets (name queen) (pos queen)))
      else Inr ([], pos queen))"

text \<open>Step 2 (lines 120 to 140): the simulated carry and the supply tasks.\<close>

definition supplyPlan :: "overlord \<Rightarrow> zerg \<Rightarrow> storeDefinition \<times> task list" where
  "supplyPlan this queen =
     (let allStore = mergeSum (map store (storeStructures this));
          allSupplyRequests = requestsFor (supplyByID (transportRequests this)) (assigned this queen)
      in supplyLoop (carryCapacity queen) allStore allSupplyRequests ([], []))"

text \<open>The filter of lines 144 to 146.\<close>

definition withdrawTargets :: "overlord \<Rightarrow> storeDefinition \<Rightarrow> structure list" where
  "withdrawTargets this queenCarry =
     (let neededResources = map fst queenCarry
      in filter (\<lambda>s. list_all (\<lambda>resource. orZero (map_of (store s) resource)
                                             \<ge> orZero (map_of queenCarry resource))
                               neededResources)
                (storeStructures this))"

text \<open>The choice of lines 147 to 152.\<close>

definition withdrawTarget ::
  "bunker \<Rightarrow> overlord \<Rightarrow> roomPosition \<Rightarrow> storeDefinition \<Rightarrow> structure option" where
  "withdrawTarget B this queenPos queenCarry =
     (let targets = withdrawTargets this queenCarry
      in if length targets > 1 then minBy targets (\<lambda>t. distance B queenPos (pos t))
         else first targets)"

definition buildSupplyTaskManifest :: "bunker \<Rightarrow> overlord \<Rightarrow> zerg \<Rightarrow> warning + manifest" where
  "buildSupplyTaskManifest B this queen =
     (case supplyFlush this queen of
        Inl w \<Rightarrow> Inl w
      | Inr (tasks, queenPos) \<Rightarrow>
          (case supplyPlan this queen of
             (queenCarry, supplyTasks) \<Rightarrow>
               (case withdrawTarget B this queenPos queenCarry of
                  None \<Rightarrow> Inl (NoWithdrawTarget (name queen) (pos queen))
                | Some wt \<Rightarrow>
                    let withdrawTasks = map (\<lambda>(rt, amt). Tasks_withdraw wt rt amt) queenCarry
                    in Inr (Tasks_chain (tasks @ withdrawTasks @ supplyTasks)))))"

text \<open>Step 1 of \<open>buildWithdrawTaskManifest\<close> (lines 167 to 177).\<close>

definition withdrawFlush :: "overlord \<Rightarrow> zerg \<Rightarrow> warning + task list" where
  "withdrawFlush this queen =
     (if sum_values (carry queen) > 0 then
        (case transferTarget this of
           Some tt \<Rightarrow> Inr [Tasks_transferAll tt]
         | None \<Rightarrow> Inl (NoTransferTargets (name queen) (pos queen)))
      else Inr [])"

definition RESOURCE_ENERGY :: resourceConstant where
  "RESOURCE_ENERGY = ''energy''"

text \<open>Step 2 (lines 179 to 196), from the tasks of step 1.\<close>

definition withdrawPlan :: "overlord \<Rightarrow> zerg \<Rightarrow> task list \<Rightarrow> storeDefinition \<times> task list" where
  "withdrawPlan this queen tasks0 =
     (let allWithdrawRequests =
            requestsFor (withdrawByID (transportRequests this)) (assigned this queen)
      in withdrawLoop (carryCapacity queen) allWithdrawRequests ([(RESOURCE_ENERGY, 0)], tasks0))"

definition buildWithdrawTaskManifest :: "overlord \<Rightarrow> zerg \<Rightarrow> warning + manifest" where
  "buildWithdrawTaskManifest this queen =
     (case withdrawFlush this queen of
        Inl w \<Rightarrow> Inl w
      | Inr tasks0 \<Rightarrow>
          (case withdrawPlan this queen tasks0 of
             (queenCarry, tasks) \<Rightarrow>
               (case transferTarget this of
                  Some tt \<Rightarrow> Inr (Tasks_chain (tasks @ [Tasks_transferAll tt]))
                | None \<Rightarrow> Inl (NoTransferTargets (name queen) (pos queen)))))"

section \<open>Zones and their assignment\<close>

definition STRUCTURE_EXTENSION :: string where "STRUCTURE_EXTENSION = ''extension''"
definition STRUCTURE_LAB :: string where "STRUCTURE_LAB = ''lab''"
definition STRUCTURE_TOWER :: string where "STRUCTURE_TOWER = ''tower''"
definition STRUCTURE_SPAWN :: string where "STRUCTURE_SPAWN = ''spawn''"

definition isSupplyStructure :: "structure \<Rightarrow> bool" where
  "isSupplyStructure s =
     (structureType s = STRUCTURE_EXTENSION
      \<or> structureType s = STRUCTURE_LAB
      \<or> structureType s = STRUCTURE_TOWER
      \<or> structureType s = STRUCTURE_SPAWN)"

text \<open>\<open>pos.lookFor(LOOK_STRUCTURES)\<close>: the structures of the room that stand on the tile.\<close>

definition lookFor :: "colony \<Rightarrow> roomPosition \<Rightarrow> structure list" where
  "lookFor col p = filter (\<lambda>s. pos s = p) (roomStructures col)"

text \<open>The loop of \<open>computeQuadrant\<close> over the remaining positions.\<close>

fun quadrantLoop :: "colony \<Rightarrow> roomPosition list \<Rightarrow> structure list \<Rightarrow> structure list" where
  "quadrantLoop col [] strucs = strucs"
| "quadrantLoop col (p # ps) strucs =
     (case find isSupplyStructure (lookFor col p) of
        Some s \<Rightarrow> quadrantLoop col ps (strucs @ [s])
      | None \<Rightarrow> quadrantLoop col ps strucs)"

definition computeQuadrant :: "bunker \<Rightarrow> colony \<Rightarrow> coord list \<Rightarrow> structure list" where
  "computeQuadrant B col quadrant =
     (let positions = map (getPosFromBunkerCoord B) quadrant
      in quadrantLoop col positions [])"

text \<open>\<open>_.zipObject\<close> on a list of pairs: a later pair with the same key wins.\<close>

fun zipObject :: "('k \<times> 'v) list \<Rightarrow> ('k \<Rightarrow> 'v option)" where
  "zipObject [] = Map.empty"
| "zipObject ((k, v) # kvs) = (\<lambda>k'. case zipObject kvs k' of Some v' \<Rightarrow> Some v'
                                        | None \<Rightarrow> if k' = k then Some v else None)"

text \<open>
  The loop of lines 87 to 92. \<open>activeQueens\<close> is not empty here, so the index is in range;
  every active queen is a queen, so \<open>this.assignments[queen.name]\<close> is a list.
\<close>

fun assignLoop ::
  "zerg list \<Rightarrow> nat \<Rightarrow> structure list list \<Rightarrow> (string \<Rightarrow> structure list option) \<Rightarrow>
   (string \<Rightarrow> structure list option)" where
  "assignLoop activeQueens i [] asg = asg"
| "assignLoop activeQueens i (quadrant # rest) asg =
     (let queen = activeQueens ! (i mod length activeQueens);
          old = (case asg (name queen) of None \<Rightarrow> [] | Some strucs \<Rightarrow> strucs)
      in assignLoop activeQueens (i + 1) rest (asg(name queen \<mapsto> old @ quadrant)))"

text \<open>
  The constructor, from the colony and the creeps of the queen role. Modelled from the
  spec: the cache \<open>$.structures\<close> of \<open>caching\<close>, which hands back the list that
  \<open>computeQuadrant\<close> produced ("computed once per cycle and cached per zone name").
\<close>

definition BunkerQueenOverlord :: "bunker \<Rightarrow> colony \<Rightarrow> zerg list \<Rightarrow> overlord" where
  "BunkerQueenOverlord B col zergs =
     (let queens0 = sort_key name zergs;
          batteries0 = filter (\<lambda>container. insideBunkerBounds B (pos container)) (containers col);
          storeStructures0 = compact ([terminal col, storage col] @ map Some batteries0);
          quadrants0 =
            \<lparr> lowerRight = computeQuadrant B col (lowerRight (quadrantFillOrder B)),
              upperLeft = computeQuadrant B col (upperLeft (quadrantFillOrder B)),
              lowerLeft = computeQuadrant B col (lowerLeft (quadrantFillOrder B)),
              upperRight = computeQuadrant B col (upperRight (quadrantFillOrder B)) \<rparr>;
          assignments0 = zipObject (map (\<lambda>queen. (name queen, [])) queens0);
          activeQueens = filter (\<lambda>queen. \<not> spawning queen) queens0;
          assignments1 =
            (if length activeQueens \<ge> 1 then
               assignLoop activeQueens 0
                 [lowerRight quadrants0, upperLeft quadrants0,
                  lowerLeft quadrants0, upperRight quadrants0]
                 assignments0
             else assignments0)
      in \<lparr> its_colony = col,
           transportRequests = colonyRequests col,
           queens = queens0,
           storeStructures = storeStructures0,
           batteries = batteries0,
           quadrants = quadrants0,
           assignments = assignments1 \<rparr>)"

section \<open>Idle handling and the dispatcher\<close>

text \<open>
  \<open>RoomPosition.getRangeTo\<close> of the game: the larger of the two coordinate differences,
  and \<open>Infinity\<close> (\<open>None\<close>) across rooms.
\<close>

definition getRangeTo :: "roomPosition \<Rightarrow> roomPosition \<Rightarrow> int option" where
  "getRangeTo p q =
     (if pos_roomName p \<noteq> pos_roomName q then None
      else Some (max \<bar>pos_x p - pos_x q\<bar> \<bar>pos_y p - pos_y q\<bar>))"

text \<open>
  \<open>RoomPosition.findClosestByRange\<close> of the game on a list of positions: a scan that
  keeps a strictly nearer candidate, starting from \<open>null\<close> at range \<open>Infinity\<close>.
\<close>

fun closestLoop ::
  "roomPosition \<Rightarrow> roomPosition list \<Rightarrow> (roomPosition \<times> int) option \<Rightarrow> (roomPosition \<times> int) option" where
  "closestLoop p [] closest = closest"
| "closestLoop p (i # objects) closest =
     (case getRangeTo p i of
        None \<Rightarrow> closestLoop p objects closest
      | Some rng \<Rightarrow>
          (case closest of
             None \<Rightarrow> closestLoop p objects (Some (i, rng))
           | Some (c, minRange) \<Rightarrow>
               if rng < minRange then closestLoop p objects (Some (i, rng))
               else closestLoop p objects closest))"

definition findClosestByRange :: "roomPosition \<Rightarrow> roomPosition list \<Rightarrow> roomPosition option" where
  "findClosestByRange p objects = map_option fst (closestLoop p objects None)"

text \<open>What the dispatcher does besides assigning tasks, in the order it happens.\<close>

datatype event =
    Log warning
  | GoTo string roomPosition
  | Run string

text \<open>\<open>(_.first(this.assignments[queen.name]) || queen).pos\<close>.\<close>

definition chargingOrigin :: "overlord \<Rightarrow> zerg \<Rightarrow> roomPosition" where
  "chargingOrigin this queen =
     (case first (assigned this queen) of Some struc \<Rightarrow> pos struc | None \<Rightarrow> pos queen)"

definition getChargingSpot :: "bunker \<Rightarrow> overlord \<Rightarrow> zerg \<Rightarrow> roomPosition \<times> event list" where
  "getChargingSpot B this queen =
     (let chargeSpots = map (getPosFromBunkerCoord B) (bunkerChargingSpots B)
      in case findClosestByRange (chargingOrigin this queen) chargeSpots of
           Some chargeSpot \<Rightarrow> (chargeSpot, [])
         | None \<Rightarrow> (pos queen, [Log (NoChargingSpot (pos queen))]))"

definition idleActions :: "bunker \<Rightarrow> overlord \<Rightarrow> zerg \<Rightarrow> event list" where
  "idleActions B this queen =
     (case getChargingSpot B this queen of
        (chargingSpot, logged) \<Rightarrow> logged @ [GoTo (name queen) chargingSpot])"

text \<open>\<open>queen.task = build(queen)\<close>, with the warning of a build that returned \<open>null\<close>.\<close>

fun setTask :: "zerg \<Rightarrow> warning + manifest \<Rightarrow> zerg \<times> event list" where
  "setTask queen (Inl w) = (queen\<lparr>task := None\<rparr>, [Log w])"
| "setTask queen (Inr m) = (queen\<lparr>task := Some m\<rparr>, [])"

text \<open>\<open>_.any(this.assignments[queen.name], struc => byID[struc.id])\<close>.\<close>

definition anyRequest :: "(string \<Rightarrow> transportRequest list option) \<Rightarrow> structure list \<Rightarrow> bool" where
  "anyRequest byID strucs = list_ex (\<lambda>struc. byID (struc_id struc) \<noteq> None) strucs"

definition handleQueen :: "bunker \<Rightarrow> overlord \<Rightarrow> zerg \<Rightarrow> zerg \<times> event list" where
  "handleQueen B this queen =
     (case (if anyRequest (withdrawByID (transportRequests this)) (assigned this queen)
            then setTask queen (buildWithdrawTaskManifest this queen)
            else if anyRequest (supplyByID (transportRequests this)) (assigned this queen)
            then setTask queen (buildSupplyTaskManifest B this queen)
            else (queen, [])) of
        (queen1, logged) \<Rightarrow>
          if isIdle queen1 then (queen1, logged @ idleActions B this queen1)
          else (queen1, logged))"

text \<open>
  The loop of \<open>run\<close> over the remaining queens; \<open>queen.run()\<close> belongs to the execution
  layer and is recorded as the event \<open>Run\<close>.
\<close>

fun runLoop :: "bunker \<Rightarrow> overlord \<Rightarrow> zerg list \<Rightarrow> zerg list \<times> event list" where
  "runLoop B this [] = ([], [])"
| "runLoop B this (queen # rest) =
     (case (if isIdle queen then handleQueen B this queen else (queen, [])) of
        (queen1, evs) \<Rightarrow>
          (case runLoop B this rest of
             (rest1, evs1) \<Rightarrow> (queen1 # rest1, evs @ [Run (name queen1)] @ evs1)))"

definition run :: "bunker \<Rightarrow> overlord \<Rightarrow> zerg list \<times> event list" where
  "run B this = runLoop B this (queens this)"

section \<open>The greedy fill in the words of the specification\<close>

text \<open>
  The specification describes the fill on the operations planned so far: the simulated
  carry of a resource is what these operations move of it. A delivery moves its amount in
  the supply path, a withdrawal in the withdraw path, a flush nothing.
\<close>

fun delivery :: "task \<Rightarrow> storeDefinition" where
  "delivery (Tasks_transfer s rt amt) = [(rt, amt)]"
| "delivery t = []"

fun withdrawal :: "task \<Rightarrow> storeDefinition" where
  "withdrawal (Tasks_withdraw s rt amt) = [(rt, amt)]"
| "withdrawal t = []"

definition deliveries :: "task list \<Rightarrow> storeDefinition" where
  "deliveries ops = concat (map delivery ops)"

definition withdrawals :: "task list \<Rightarrow> storeDefinition" where
  "withdrawals ops = concat (map withdrawal ops)"

text \<open>The amount of one resource among such contributions.\<close>

definition amountOf :: "resourceConstant \<Rightarrow> storeDefinition \<Rightarrow> int" where
  "amountOf r entries = sum_values (filter (\<lambda>e. fst e = r) entries)"

text \<open>The availability snapshot: the stock of a resource summed over the store structures.\<close>

definition availability :: "structure list \<Rightarrow> resourceConstant \<Rightarrow> int" where
  "availability strucs r = sum_list (map (\<lambda>s. orZero (map_of (store s) r)) strucs)"

fun spec_supplyFill ::
  "int \<Rightarrow> (resourceConstant \<Rightarrow> int) \<Rightarrow> transportRequest list \<Rightarrow> task list \<Rightarrow> task list" where
  "spec_supplyFill capacity avail [] ops = ops"
| "spec_supplyFill capacity avail (request # rest) ops =
     (let remaining = capacity - sum_values (deliveries ops) in
      if remaining = 0 then ops
      else
        let amt = min (amount request) (min remaining (avail (resourceType request)))
        in if amt = 0 then spec_supplyFill capacity avail rest ops
           else spec_supplyFill capacity avail rest
                  (ops @ [Tasks_transfer (target request) (resourceType request) amt]))"

fun spec_withdrawFill :: "int \<Rightarrow> transportRequest list \<Rightarrow> task list \<Rightarrow> task list" where
  "spec_withdrawFill capacity [] ops = ops"
| "spec_withdrawFill capacity (request # rest) ops =
     (let remaining = capacity - sum_values (withdrawals ops) in
      if remaining = 0 then ops
      else
        let amt = min (amount request) remaining
        in if amt = 0 then spec_withdrawFill capacity rest ops
           else spec_withdrawFill capacity rest
                  (ops @ [Tasks_withdraw (target request) (resourceType request) amt]))"

text \<open>
  The relation the proofs keep between the simulated carry of the code and the contributions
  of the planned operations: same total, same amount of every resource, keys not repeated.
\<close>

definition agrees :: "storeDefinition \<Rightarrow> storeDefinition \<Rightarrow> bool" where
  "agrees qc es \<longleftrightarrow> distinct (map fst qc) \<and> sum_values qc = sum_values es
      \<and> (\<forall>r. orZero (map_of qc r) = amountOf r es)"

section \<open>Definitions used to state the properties\<close>

text \<open>The three kinds of operation, as predicates.\<close>

fun isFlush :: "task \<Rightarrow> bool" where
  "isFlush (Tasks_transferAll s) = True"
| "isFlush t = False"

fun isWithdraw :: "task \<Rightarrow> bool" where
  "isWithdraw (Tasks_withdraw s rt amt) = True"
| "isWithdraw t = False"

fun isDelivery :: "task \<Rightarrow> bool" where
  "isDelivery (Tasks_transfer s rt amt) = True"
| "isDelivery t = False"

text \<open>
  One turn of the dispatcher in the words of the specification: an agent that is not idle
  only executes a step; an idle one gets the withdraw manifest if an assigned structure has
  a removal request, else the supply manifest if one has a delivery request; if the build
  returned no manifest, or there was no request, the idle handler runs; then the agent
  executes a step.
\<close>

definition spec_turn :: "bunker \<Rightarrow> overlord \<Rightarrow> zerg \<Rightarrow> zerg \<times> event list" where
  "spec_turn B this queen =
     (if \<not> isIdle queen then (queen, [Run (name queen)])
      else if anyRequest (withdrawByID (transportRequests this)) (assigned this queen) then
        (case buildWithdrawTaskManifest this queen of
           Inr m \<Rightarrow> (queen\<lparr>task := Some m\<rparr>, [Run (name queen)])
         | Inl w \<Rightarrow> (queen\<lparr>task := None\<rparr>,
                     [Log w] @ idleActions B this queen @ [Run (name queen)]))
      else if anyRequest (supplyByID (transportRequests this)) (assigned this queen) then
        (case buildSupplyTaskManifest B this queen of
           Inr m \<Rightarrow> (queen\<lparr>task := Some m\<rparr>, [Run (name queen)])
         | Inl w \<Rightarrow> (queen\<lparr>task := None\<rparr>,
                     [Log w] @ idleActions B this queen @ [Run (name queen)]))
      else (queen, idleActions B this queen @ [Run (name queen)]))"

text \<open>
  The zones of the agent named \<open>nm\<close> in the words of the specification: zone \<open>i\<close> goes
  to \<open>activeAgents[i mod activeCount]\<close>, the zones being counted from \<open>i\<close> on.
\<close>

fun spec_zones :: "string \<Rightarrow> zerg list \<Rightarrow> nat \<Rightarrow> structure list list \<Rightarrow> structure list" where
  "spec_zones nm activeAgents i [] = []"
| "spec_zones nm activeAgents i (zone # rest) =
     (if name (activeAgents ! (i mod length activeAgents)) = nm then zone else [])
     @ spec_zones nm activeAgents (i + 1) rest"

text \<open>
  What \<open>computeQuadrant\<close> finds on a tile, the four zones of an overlord in one list, and
  the tiles the four fill orders name.
\<close>

definition supplyStructureAt :: "colony \<Rightarrow> roomPosition \<Rightarrow> structure option" where
  "supplyStructureAt col p = find isSupplyStructure (lookFor col p)"

definition zoneStructures :: "overlord \<Rightarrow> structure list" where
  "zoneStructures this =
     lowerRight (quadrants this) @ upperLeft (quadrants this)
     @ lowerLeft (quadrants this) @ upperRight (quadrants this)"

definition zoneTiles :: "bunker \<Rightarrow> roomPosition list" where
  "zoneTiles B =
     map (getPosFromBunkerCoord B)
       (lowerRight (quadrantFillOrder B) @ upperLeft (quadrantFillOrder B)
        @ lowerLeft (quadrantFillOrder B) @ upperRight (quadrantFillOrder B))"

section \<open>An example colony\<close>

text \<open>
  A bunker anchored at tile (25, 25) of room W1N1 with one reserve container in bounds and
  one outside, a storage and no terminal; three queens, one of them still spawning.
\<close>

definition ex_pos :: "coord \<Rightarrow> roomPosition" where
  "ex_pos c = RoomPosition (25 + fst c) (25 + snd c) ''W1N1''"

definition ex_bunker :: bunker where
  "ex_bunker = \<lparr> quadrantFillOrder = \<lparr> lowerRight = [(1, 1), (2, 1)], upperLeft = [(-1, -1)],
                                       lowerLeft = [(-1, 1)], upperRight = [(1, -1)] \<rparr>,
                 bunkerChargingSpots = [(0, -1), (0, 1)],
                 getPosFromBunkerCoord = ex_pos,
                 insideBunkerBounds = (\<lambda>p. \<bar>pos_x p - 25\<bar> \<le> 6 \<and> \<bar>pos_y p - 25\<bar> \<le> 6),
                 distance = (\<lambda>p q. max \<bar>pos_x p - pos_x q\<bar> \<bar>pos_y p - pos_y q\<bar>) \<rparr>"

definition ex_struc :: "string \<Rightarrow> string \<Rightarrow> coord \<Rightarrow> storeDefinition \<Rightarrow> structure" where
  "ex_struc i ty c st = \<lparr> pos = ex_pos c, struc_id = i, structureType = ty, store = st \<rparr>"

definition ex_extension :: "structure" where "ex_extension = ex_struc ''e1'' ''extension'' (1, 1) []"
definition ex_road :: "structure" where "ex_road = ex_struc ''r1'' ''road'' (2, 1) []"
definition ex_spawn :: "structure" where "ex_spawn = ex_struc ''s1'' ''spawn'' (-1, -1) []"
definition ex_tower :: "structure" where "ex_tower = ex_struc ''t1'' ''tower'' (-1, 1) []"
definition ex_lab :: "structure" where "ex_lab = ex_struc ''l1'' ''lab'' (1, -1) []"
definition ex_outpost :: "structure" where "ex_outpost = ex_struc ''t2'' ''tower'' (15, 15) []"
definition ex_storage :: "structure" where
  "ex_storage = ex_struc ''st'' ''storage'' (0, 3) [(''energy'', 40), (''H'', 5)]"
definition ex_battery :: "structure" where
  "ex_battery = ex_struc ''c1'' ''container'' (0, -2) [(''energy'', 40), (''H'', 20)]"
definition ex_far_container :: "structure" where
  "ex_far_container = ex_struc ''c2'' ''container'' (20, 20) [(''energy'', 500), (''H'', 500)]"

definition ex_requests :: transportRequestGroup where
  "ex_requests = \<lparr>
     supplyByID = [''s1'' \<mapsto> [\<lparr> target = ex_spawn, resourceType = ''energy'', amount = 30 \<rparr>],
                   ''l1'' \<mapsto> [\<lparr> target = ex_lab, resourceType = ''H'', amount = 10 \<rparr>],
                   ''e1'' \<mapsto> [\<lparr> target = ex_extension, resourceType = ''energy'', amount = 80 \<rparr>]],
     withdrawByID = [''t1'' \<mapsto> [\<lparr> target = ex_tower, resourceType = ''energy'', amount = 80 \<rparr>]] \<rparr>"

definition ex_colony :: colony where
  "ex_colony = \<lparr> terminal = None, storage = Some ex_storage,
                 containers = [ex_far_container, ex_battery],
                 roomStructures = [ex_extension, ex_road, ex_spawn, ex_tower, ex_lab, ex_outpost,
                                   ex_storage, ex_battery, ex_far_container],
                 colonyRequests = ex_requests \<rparr>"

text \<open>The same colony with other requests, and one without any store structure.\<close>

definition ex_supply_only :: "resourceConstant \<Rightarrow> int \<Rightarrow> transportRequestGroup" where
  "ex_supply_only r n = \<lparr>
     supplyByID = [''s1'' \<mapsto> [\<lparr> target = ex_spawn, resourceType = r, amount = n \<rparr>]],
     withdrawByID = Map.empty \<rparr>"

definition ex_colony_energy :: colony where
  "ex_colony_energy = ex_colony \<lparr> colonyRequests := ex_supply_only ''energy'' 30 \<rparr>"

definition ex_colony_split :: colony where
  "ex_colony_split = ex_colony \<lparr> colonyRequests := ex_supply_only ''H'' 30 \<rparr>"

definition ex_colony_oxygen :: colony where
  "ex_colony_oxygen = ex_colony \<lparr> colonyRequests := ex_supply_only ''O'' 30 \<rparr>"

definition ex_colony_bare :: colony where
  "ex_colony_bare = ex_colony \<lparr> storage := None, containers := [ex_far_container] \<rparr>"

definition ex_zerg :: "string \<Rightarrow> coord \<Rightarrow> storeDefinition \<Rightarrow> bool \<Rightarrow> zerg" where
  "ex_zerg n c cr sp = \<lparr> pos = ex_pos c, name = n, carry = cr, carryCapacity = 50,
                        spawning = sp, task = None \<rparr>"

definition ex_queenA :: zerg where "ex_queenA = ex_zerg ''a'' (0, 0) [(''energy'', 10)] False"
definition ex_queenB :: zerg where "ex_queenB = ex_zerg ''b'' (0, -1) [] False"
definition ex_queenC :: zerg where "ex_queenC = ex_zerg ''c'' (0, 2) [] True"

definition ex_overlord_of :: "colony \<Rightarrow> overlord" where
  "ex_overlord_of col = BunkerQueenOverlord ex_bunker col [ex_queenB, ex_queenC, ex_queenA]"

definition ex_overlord :: overlord where
  "ex_overlord = ex_overlord_of ex_colony"

text \<open>
  The colony with a terminal besides its storage, queen b carrying 10 energy, and the
  overlord of a colony when she does.
\<close>

definition ex_terminal :: "structure" where
  "ex_terminal = ex_struc ''tm'' ''terminal'' (0, 4) [(''energy'', 100), (''H'', 50)]"

definition ex_colony_terminal :: colony where
  "ex_colony_terminal = ex_colony \<lparr> terminal := Some ex_terminal,
                                     roomStructures := roomStructures ex_colony @ [ex_terminal] \<rparr>"

definition ex_queenB_loaded :: zerg where
  "ex_queenB_loaded = ex_zerg ''b'' (0, -1) [(''energy'', 10)] False"

definition ex_loaded_overlord_of :: "colony \<Rightarrow> overlord" where
  "ex_loaded_overlord_of col = BunkerQueenOverlord ex_bunker col [ex_queenB_loaded, ex_queenC, ex_queenA]"

section \<open>Lemmas on the dictionary operations\<close>

lemma map_of_setKey: "map_of (setKey qc k v) = (map_of qc)(k \<mapsto> v)"
  by (induction qc k v rule: setKey.induct) (auto simp: fun_eq_iff)

lemma fst_setKey: "fst ` set (setKey qc k v) = insert k (fst ` set qc)"
  by (induction qc k v rule: setKey.induct) auto

lemma distinct_setKey: "distinct (map fst qc) \<Longrightarrow> distinct (map fst (setKey qc k v))"
proof (induction qc k v rule: setKey.induct)
  case (1 k v) then show ?case by simp
next
  case (2 k' v' rest k v)
  have "fst ` set (setKey rest k v) = insert k (fst ` set rest)" by (rule fst_setKey)
  with 2 show ?case by auto
qed

lemma sum_values_setKey:
  "distinct (map fst qc) \<Longrightarrow> sum_values (setKey qc k v) = sum_values qc - orZero (map_of qc k) + v"
proof (induction qc k v rule: setKey.induct)
  case (1 k v) then show ?case by (simp add: sum_values_def)
next
  case (2 k' v' rest k v)
  show ?case
  proof (cases "k' = k")
    case True
    with 2 have "map_of rest k = None" by (simp add: map_of_eq_None_iff)
    with True show ?thesis by (simp add: sum_values_def)
  next
    case False
    with 2 show ?thesis by (simp add: sum_values_def)
  qed
qed

lemma orZero_addCarry:
  "orZero (map_of (addCarry qc k a) k') = orZero (map_of qc k') + (if k' = k then a else 0)"
  by (cases "map_of qc k") (auto simp: addCarry_def Let_def map_of_setKey)

lemma distinct_addCarry: "distinct (map fst qc) \<Longrightarrow> distinct (map fst (addCarry qc k a))"
  by (simp add: addCarry_def Let_def distinct_setKey)

lemma sum_values_addCarry:
  "distinct (map fst qc) \<Longrightarrow> sum_values (addCarry qc k a) = sum_values qc + a"
  by (cases "map_of qc k") (auto simp: addCarry_def Let_def map_of_setKey sum_values_setKey distinct_setKey)

lemma keys_addCarry: "fst ` set (addCarry qc k a) = insert k (fst ` set qc)"
  by (simp add: addCarry_def Let_def fst_setKey)

lemma addCarry_not_Nil: "addCarry qc k a \<noteq> []"
  by (cases qc) (auto simp: addCarry_def Let_def split: if_splits)

section \<open>Lemmas on the two fill loops\<close>

lemma supplyLoop_inv:
  "distinct (map fst qc) \<Longrightarrow> sum_values qc \<le> cap \<Longrightarrow>
   distinct (map fst (fst (supplyLoop cap a reqs (qc, ts))))
   \<and> sum_values (fst (supplyLoop cap a reqs (qc, ts))) \<le> cap"
proof (induction reqs arbitrary: qc ts)
  case Nil
  then show ?case by simp
next
  case (Cons request rest)
  then show ?case
    by (simp add: Let_def distinct_addCarry sum_values_addCarry)
qed

lemma withdrawLoop_inv:
  "distinct (map fst qc) \<Longrightarrow> sum_values qc \<le> cap \<Longrightarrow>
   distinct (map fst (fst (withdrawLoop cap reqs (qc, ts))))
   \<and> sum_values (fst (withdrawLoop cap reqs (qc, ts))) \<le> cap"
proof (induction reqs arbitrary: qc ts)
  case Nil
  then show ?case by simp
next
  case (Cons request rest)
  then show ?case
    by (simp add: Let_def distinct_addCarry sum_values_addCarry)
qed

text \<open>
  After \<open>break\<close> the remaining capacity is still 0, so the loop on a list is the loop on a
  prefix followed by the loop on the rest: the state after \<open>k\<close> iterations is the result on
  the first \<open>k\<close> requests.
\<close>

lemma supplyLoop_stuck:
  "cap - sum_values qc = 0 \<Longrightarrow> supplyLoop cap a reqs (qc, ts) = (qc, ts)"
  by (cases reqs) simp_all

lemma supplyLoop_append:
  "supplyLoop cap a (xs @ ys) (qc, ts) = supplyLoop cap a ys (supplyLoop cap a xs (qc, ts))"
proof (induction xs arbitrary: qc ts)
  case Nil
  then show ?case by simp
next
  case (Cons request rest)
  then show ?case
    by (simp add: Let_def supplyLoop_stuck)
qed

lemma withdrawLoop_stuck:
  "cap - sum_values qc = 0 \<Longrightarrow> withdrawLoop cap reqs (qc, ts) = (qc, ts)"
  by (cases reqs) simp_all

lemma withdrawLoop_append:
  "withdrawLoop cap (xs @ ys) (qc, ts) = withdrawLoop cap ys (withdrawLoop cap xs (qc, ts))"
proof (induction xs arbitrary: qc ts)
  case Nil
  then show ?case by simp
next
  case (Cons request rest)
  then show ?case
    by (simp add: Let_def withdrawLoop_stuck)
qed

lemma orZero_mergeSum: "orZero (mergeSum (map store strucs) r) = availability strucs r"
proof (cases "list_ex (\<lambda>st. map_of st r \<noteq> None) (map store strucs)")
  case True
  then show ?thesis by (simp add: mergeSum_def availability_def comp_def)
next
  case False
  then have "\<forall>s \<in> set strucs. orZero (map_of (store s) r) = 0"
    by (auto simp: list_ex_iff)
  then have "sum_list (map (\<lambda>s. orZero (map_of (store s) r)) strucs) = 0"
    by (induction strucs) auto
  with False show ?thesis by (simp add: mergeSum_def availability_def)
qed

lemma sum_values_append: "sum_values (xs @ ys) = sum_values xs + sum_values ys"
  by (simp add: sum_values_def)

lemma deliveries_snoc: "deliveries (ops @ [Tasks_transfer s rt a]) = deliveries ops @ [(rt, a)]"
  by (simp add: deliveries_def)

lemma withdrawals_snoc: "withdrawals (ops @ [Tasks_withdraw s rt a]) = withdrawals ops @ [(rt, a)]"
  by (simp add: withdrawals_def)

lemma amountOf_snoc: "amountOf r (es @ [(rt, a)]) = amountOf r es + (if r = rt then a else 0)"
  by (simp add: amountOf_def sum_values_def)

lemma agrees_addCarry: "agrees qc es \<Longrightarrow> agrees (addCarry qc rt a) (es @ [(rt, a)])"
  by (simp add: agrees_def distinct_addCarry sum_values_addCarry sum_values_append
      orZero_addCarry amountOf_snoc) (simp add: sum_values_def)

lemma supplyLoop_refines:
  "agrees qc (deliveries ops) \<Longrightarrow>
   snd (supplyLoop cap (mergeSum (map store strucs)) reqs (qc, ops))
     = spec_supplyFill cap (availability strucs) reqs ops
   \<and> agrees (fst (supplyLoop cap (mergeSum (map store strucs)) reqs (qc, ops)))
        (deliveries (spec_supplyFill cap (availability strucs) reqs ops))"
proof (induction reqs arbitrary: qc ops)
  case Nil
  then show ?case by simp
next
  case (Cons request rest)
  have s: "sum_values qc = sum_values (deliveries ops)"
    using Cons.prems by (simp add: agrees_def)
  have step: "agrees (addCarry qc rt a) (deliveries (ops @ [Tasks_transfer t rt a]))" for t rt a
    using agrees_addCarry[OF Cons.prems] by (simp add: deliveries_snoc)
  show ?case
    using Cons.prems Cons.IH[OF Cons.prems] Cons.IH[OF step]
    by (simp add: Let_def s orZero_mergeSum min.assoc)
qed

lemma withdrawLoop_refines:
  "agrees qc (withdrawals ops) \<Longrightarrow>
   snd (withdrawLoop cap reqs (qc, tasks0 @ ops)) = tasks0 @ spec_withdrawFill cap reqs ops
   \<and> agrees (fst (withdrawLoop cap reqs (qc, tasks0 @ ops)))
        (withdrawals (spec_withdrawFill cap reqs ops))"
proof (induction reqs arbitrary: qc ops)
  case Nil
  then show ?case by simp
next
  case (Cons request rest)
  have s: "sum_values qc = sum_values (withdrawals ops)"
    using Cons.prems by (simp add: agrees_def)
  have step: "agrees (addCarry qc rt a) (withdrawals (ops @ [Tasks_withdraw t rt a]))" for t rt a
    using agrees_addCarry[OF Cons.prems] by (simp add: withdrawals_snoc)
  show ?case
    using Cons.prems Cons.IH[OF Cons.prems] Cons.IH[OF step]
    by (simp add: Let_def s)
qed

lemma agrees_Nil: "agrees [] []"
  by (simp add: agrees_def sum_values_def amountOf_def)

lemma agrees_energy0: "agrees [(RESOURCE_ENERGY, 0)] []"
  by (simp add: agrees_def sum_values_def amountOf_def)

lemma withdrawals_spec_supplyFill:
  "withdrawals (spec_supplyFill cap av reqs ops) = withdrawals ops"
  by (induction reqs arbitrary: ops) (simp_all add: Let_def withdrawals_def)

lemma deliveries_spec_withdrawFill:
  "deliveries (spec_withdrawFill cap reqs ops) = deliveries ops"
  by (induction reqs arbitrary: ops) (simp_all add: Let_def deliveries_def)

lemma withdrawals_Nil: "withdrawals [] = []"
  by (simp add: withdrawals_def)

lemma deliveries_Nil: "deliveries [] = []"
  by (simp add: deliveries_def)

lemma withdrawals_append: "withdrawals (xs @ ys) = withdrawals xs @ withdrawals ys"
  by (simp add: withdrawals_def)

lemma deliveries_append: "deliveries (xs @ ys) = deliveries xs @ deliveries ys"
  by (simp add: deliveries_def)

lemma withdrawals_withdrawTasks:
  "withdrawals (map (\<lambda>(rt, amt). Tasks_withdraw wt rt amt) qc) = qc"
  by (induction qc) (auto simp: withdrawals_def)

lemma deliveries_withdrawTasks:
  "deliveries (map (\<lambda>(rt, amt). Tasks_withdraw wt rt amt) qc) = []"
  by (induction qc) (auto simp: deliveries_def)

lemma supplyPlan_refines:
  "snd (supplyPlan this queen)
     = spec_supplyFill (carryCapacity queen) (availability (storeStructures this))
         (requestsFor (supplyByID (transportRequests this)) (assigned this queen)) []
   \<and> agrees (fst (supplyPlan this queen)) (deliveries (snd (supplyPlan this queen)))"
  using supplyLoop_refines[of "[]" "[]", OF _] agrees_Nil
  by (simp add: supplyPlan_def Let_def deliveries_def)

lemma withdrawPlan_refines:
  "snd (withdrawPlan this queen tasks0)
     = tasks0 @ spec_withdrawFill (carryCapacity queen)
         (requestsFor (withdrawByID (transportRequests this)) (assigned this queen)) []
   \<and> agrees (fst (withdrawPlan this queen tasks0))
        (withdrawals (spec_withdrawFill (carryCapacity queen)
         (requestsFor (withdrawByID (transportRequests this)) (assigned this queen)) []))"
  using withdrawLoop_refines[of "[(RESOURCE_ENERGY, 0)]" "[]" _ _ tasks0] agrees_energy0
  by (simp add: withdrawPlan_def Let_def withdrawals_def)

lemma supplyFlush_tasks:
  "supplyFlush this queen = Inr (tasks, queenPos) \<Longrightarrow>
   tasks = [] \<or> (\<exists>tt. tasks = [Tasks_transferAll tt])"
  by (auto simp: supplyFlush_def split: if_splits option.splits)

lemma withdrawFlush_tasks:
  "withdrawFlush this queen = Inr tasks \<Longrightarrow>
   tasks = [] \<or> (\<exists>tt. tasks = [Tasks_transferAll tt])"
  by (auto simp: withdrawFlush_def split: if_splits option.splits)

lemma buildSupply_Inr:
  "buildSupplyTaskManifest B this queen = Inr m \<Longrightarrow>
   \<exists>tasks queenPos wt. supplyFlush this queen = Inr (tasks, queenPos)
     \<and> withdrawTarget B this queenPos (fst (supplyPlan this queen)) = Some wt
     \<and> m = Tasks_chain (tasks @ map (\<lambda>(rt, amt). Tasks_withdraw wt rt amt) (fst (supplyPlan this queen))
                          @ snd (supplyPlan this queen))"
  by (auto simp: buildSupplyTaskManifest_def Let_def split: sum.splits prod.splits option.splits)

lemma buildWithdraw_Inr:
  "buildWithdrawTaskManifest this queen = Inr m \<Longrightarrow>
   \<exists>tasks0 tt. withdrawFlush this queen = Inr tasks0 \<and> transferTarget this = Some tt
     \<and> m = Tasks_chain (snd (withdrawPlan this queen tasks0) @ [Tasks_transferAll tt])"
  by (auto simp: buildWithdrawTaskManifest_def Let_def split: sum.splits prod.splits option.splits)

section \<open>Capacity\<close>

text \<open>
  Claim C2. For a queen whose carry capacity is not negative, the simulated carry never sums
  to more than the capacity: after any number \<open>k\<close> of requests of the supply loop and of
  the withdraw loop (the state after \<open>k\<close> iterations is the result on the first \<open>k\<close>
  requests, see \<open>supplyLoop_append\<close> and \<open>withdrawLoop_append\<close>), and in every manifest
  built: what a supply manifest withdraws and what it delivers, and what a withdraw manifest
  withdraws, each sum to at most the capacity.
\<close>

theorem capacity_respect:
  assumes cap: "0 \<le> carryCapacity queen"
  shows "(\<forall>k. sum_values (fst (supplyLoop (carryCapacity queen)
                  (mergeSum (map store (storeStructures this)))
                  (take k (requestsFor (supplyByID (transportRequests this)) (assigned this queen)))
                  ([], []))) \<le> carryCapacity queen)
       \<and> (\<forall>k tasks0. sum_values (fst (withdrawLoop (carryCapacity queen)
                  (take k (requestsFor (withdrawByID (transportRequests this)) (assigned this queen)))
                  ([(RESOURCE_ENERGY, 0)], tasks0))) \<le> carryCapacity queen)
       \<and> (\<forall>m. buildSupplyTaskManifest B this queen = Inr m \<longrightarrow>
              sum_values (withdrawals (chained m)) \<le> carryCapacity queen
              \<and> sum_values (deliveries (chained m)) \<le> carryCapacity queen)
       \<and> (\<forall>m. buildWithdrawTaskManifest this queen = Inr m \<longrightarrow>
              sum_values (withdrawals (chained m)) \<le> carryCapacity queen)"
proof (intro conjI allI impI)
  fix k
  show "sum_values (fst (supplyLoop (carryCapacity queen)
                  (mergeSum (map store (storeStructures this)))
                  (take k (requestsFor (supplyByID (transportRequests this)) (assigned this queen)))
                  ([], []))) \<le> carryCapacity queen"
    using supplyLoop_inv[of "[]" "carryCapacity queen"] cap by (simp add: sum_values_def)
next
  fix k tasks0
  show "sum_values (fst (withdrawLoop (carryCapacity queen)
                  (take k (requestsFor (withdrawByID (transportRequests this)) (assigned this queen)))
                  ([(RESOURCE_ENERGY, 0)], tasks0))) \<le> carryCapacity queen"
    using withdrawLoop_inv[of "[(RESOURCE_ENERGY, 0)]" "carryCapacity queen"] cap
    by (simp add: sum_values_def)
next
  have plan: "sum_values (fst (supplyPlan this queen)) \<le> carryCapacity queen"
    using supplyLoop_inv[of "[]" "carryCapacity queen"] cap
    by (simp add: supplyPlan_def Let_def sum_values_def)
  fix m assume "buildSupplyTaskManifest B this queen = Inr m"
  then obtain tasks queenPos wt where
    fl: "supplyFlush this queen = Inr (tasks, queenPos)" and
    m: "m = Tasks_chain (tasks @ map (\<lambda>(rt, amt). Tasks_withdraw wt rt amt) (fst (supplyPlan this queen))
                          @ snd (supplyPlan this queen))"
    using buildSupply_Inr by blast
  have t: "withdrawals tasks = [] \<and> deliveries tasks = []"
    using supplyFlush_tasks[OF fl] by (auto simp: withdrawals_def deliveries_def)
  have w: "withdrawals (snd (supplyPlan this queen)) = []"
    using supplyPlan_refines[of this queen] by (simp add: withdrawals_spec_supplyFill withdrawals_Nil)
  have d: "sum_values (deliveries (snd (supplyPlan this queen))) = sum_values (fst (supplyPlan this queen))"
    using supplyPlan_refines[of this queen] by (simp add: agrees_def)
  show "sum_values (withdrawals (chained m)) \<le> carryCapacity queen"
    using plan t w by (simp add: m withdrawals_append withdrawals_withdrawTasks)
  show "sum_values (deliveries (chained m)) \<le> carryCapacity queen"
    using plan t d by (simp add: m deliveries_append deliveries_withdrawTasks)
next
  fix m assume "buildWithdrawTaskManifest this queen = Inr m"
  then obtain tasks0 tt where
    fl: "withdrawFlush this queen = Inr tasks0" and
    m: "m = Tasks_chain (snd (withdrawPlan this queen tasks0) @ [Tasks_transferAll tt])"
    using buildWithdraw_Inr by blast
  have t: "withdrawals tasks0 = []"
    using withdrawFlush_tasks[OF fl] by (auto simp: withdrawals_def)
  have plan: "sum_values (fst (withdrawPlan this queen tasks0)) \<le> carryCapacity queen"
    using withdrawLoop_inv[of "[(RESOURCE_ENERGY, 0)]" "carryCapacity queen"] cap
    by (simp add: withdrawPlan_def Let_def sum_values_def)
  have a: "sum_values (withdrawals (spec_withdrawFill (carryCapacity queen)
         (requestsFor (withdrawByID (transportRequests this)) (assigned this queen)) []))
         = sum_values (fst (withdrawPlan this queen tasks0))"
    using withdrawPlan_refines[of this queen tasks0] by (simp add: agrees_def)
  show "sum_values (withdrawals (chained m)) \<le> carryCapacity queen"
    using plan t a withdrawPlan_refines[of this queen tasks0]
    by (simp add: m withdrawals_append) (simp add: withdrawals_def)
qed

text \<open>
  The theorem at queen b of the example, whose supply manifest withdraws 30 energy and 10 H,
  and at queen a, whose withdraw manifest takes 50 of the 80 energy the tower offers.
\<close>

theorem capacity_respect_witness:
  "0 \<le> carryCapacity ex_queenB
   \<and> buildSupplyTaskManifest ex_bunker ex_overlord ex_queenB =
       Inr (Tasks_chain [Tasks_withdraw ex_battery ''energy'' 30, Tasks_withdraw ex_battery ''H'' 10,
                         Tasks_transfer ex_spawn ''energy'' 30, Tasks_transfer ex_lab ''H'' 10])
   \<and> sum_values (withdrawals [Tasks_withdraw ex_battery ''energy'' 30, Tasks_withdraw ex_battery ''H'' 10,
                         Tasks_transfer ex_spawn ''energy'' 30, Tasks_transfer ex_lab ''H'' 10])
        \<le> carryCapacity ex_queenB
   \<and> 0 \<le> carryCapacity ex_queenA
   \<and> buildWithdrawTaskManifest ex_overlord ex_queenA =
       Inr (Tasks_chain [Tasks_transferAll ex_storage, Tasks_withdraw ex_tower ''energy'' 50,
                         Tasks_transferAll ex_storage])
   \<and> sum_values (withdrawals [Tasks_transferAll ex_storage, Tasks_withdraw ex_tower ''energy'' 50,
                         Tasks_transferAll ex_storage]) \<le> carryCapacity ex_queenA"
proof -
  have hB: "0 \<le> carryCapacity ex_queenB" by code_simp
  have hA: "0 \<le> carryCapacity ex_queenA" by code_simp
  have bB: "buildSupplyTaskManifest ex_bunker ex_overlord ex_queenB =
       Inr (Tasks_chain [Tasks_withdraw ex_battery ''energy'' 30, Tasks_withdraw ex_battery ''H'' 10,
                         Tasks_transfer ex_spawn ''energy'' 30, Tasks_transfer ex_lab ''H'' 10])"
    by code_simp
  have bA: "buildWithdrawTaskManifest ex_overlord ex_queenA =
       Inr (Tasks_chain [Tasks_transferAll ex_storage, Tasks_withdraw ex_tower ''energy'' 50,
                         Tasks_transferAll ex_storage])"
    by code_simp
  from capacity_respect[OF hB, of ex_overlord ex_bunker] bB
  have "sum_values (withdrawals [Tasks_withdraw ex_battery ''energy'' 30, Tasks_withdraw ex_battery ''H'' 10,
                         Tasks_transfer ex_spawn ''energy'' 30, Tasks_transfer ex_lab ''H'' 10])
        \<le> carryCapacity ex_queenB" by simp
  moreover from capacity_respect[OF hA, of ex_overlord ex_bunker] bA
  have "sum_values (withdrawals [Tasks_transferAll ex_storage, Tasks_withdraw ex_tower ''energy'' 50,
                         Tasks_transferAll ex_storage]) \<le> carryCapacity ex_queenA" by simp
  ultimately show ?thesis using hB hA bB bA by simp
qed

section \<open>The greedy fill\<close>

text \<open>
  Claim C5. The supply tasks the code plans are those of the fill as the specification words
  it: per request, stop when the remaining capacity is 0, take the least of the requested
  amount, the remaining capacity and the availability summed over all store structures,
  skip the request when that is 0, else append a delivery of that amount; and the simulated
  carry of every resource is the sum of the deliveries of that resource. The withdraw
  tasks are the tasks of step 1 followed by those of the fill without the availability
  bound, and the simulated carry is the sum of the withdrawals.
\<close>

theorem greedy_fill:
  "snd (supplyPlan this queen)
     = spec_supplyFill (carryCapacity queen) (availability (storeStructures this))
         (requestsFor (supplyByID (transportRequests this)) (assigned this queen)) []
   \<and> (\<forall>r. orZero (map_of (fst (supplyPlan this queen)) r)
            = amountOf r (deliveries (snd (supplyPlan this queen))))
   \<and> snd (withdrawPlan this queen tasks0)
     = tasks0 @ spec_withdrawFill (carryCapacity queen)
         (requestsFor (withdrawByID (transportRequests this)) (assigned this queen)) []
   \<and> (\<forall>r. orZero (map_of (fst (withdrawPlan this queen tasks0)) r)
            = amountOf r (withdrawals (spec_withdrawFill (carryCapacity queen)
                (requestsFor (withdrawByID (transportRequests this)) (assigned this queen)) [])))"
  using supplyPlan_refines[of this queen] withdrawPlan_refines[of this queen tasks0]
  by (simp add: agrees_def)

text \<open>
  The theorem at queen a of the example: the extension asks for 80 energy, the stores hold
  80 together and she can carry 50, so one delivery of 50 is planned; and the tower offers
  80 energy, of which one withdrawal of 50 is planned after the flush.
\<close>

theorem greedy_fill_witness:
  "availability (storeStructures ex_overlord) ''energy'' = 80
   \<and> carryCapacity ex_queenA = 50
   \<and> requestsFor (supplyByID (transportRequests ex_overlord)) (assigned ex_overlord ex_queenA)
        = [\<lparr> target = ex_extension, resourceType = ''energy'', amount = 80 \<rparr>]
   \<and> snd (supplyPlan ex_overlord ex_queenA) = [Tasks_transfer ex_extension ''energy'' 50]
   \<and> orZero (map_of (fst (supplyPlan ex_overlord ex_queenA)) ''energy'') = 50
   \<and> snd (withdrawPlan ex_overlord ex_queenA [Tasks_transferAll ex_storage])
        = [Tasks_transferAll ex_storage, Tasks_withdraw ex_tower ''energy'' 50]"
proof -
  have a: "availability (storeStructures ex_overlord) ''energy'' = 80" by code_simp
  have c: "carryCapacity ex_queenA = 50" by code_simp
  have r: "requestsFor (supplyByID (transportRequests ex_overlord)) (assigned ex_overlord ex_queenA)
        = [\<lparr> target = ex_extension, resourceType = ''energy'', amount = 80 \<rparr>]" by code_simp
  have s: "spec_supplyFill (carryCapacity ex_queenA) (availability (storeStructures ex_overlord))
             (requestsFor (supplyByID (transportRequests ex_overlord)) (assigned ex_overlord ex_queenA)) []
           = [Tasks_transfer ex_extension ''energy'' 50]" by code_simp
  have w: "spec_withdrawFill (carryCapacity ex_queenA)
             (requestsFor (withdrawByID (transportRequests ex_overlord)) (assigned ex_overlord ex_queenA)) []
           = [Tasks_withdraw ex_tower ''energy'' 50]" by code_simp
  have m: "amountOf ''energy'' (deliveries [Tasks_transfer ex_extension ''energy'' 50]) = 50"
    by code_simp
  note th = greedy_fill[of ex_overlord ex_queenA "[Tasks_transferAll ex_storage]"]
  from th s have 1: "snd (supplyPlan ex_overlord ex_queenA) = [Tasks_transfer ex_extension ''energy'' 50]"
    by simp
  from th 1 m have 2: "orZero (map_of (fst (supplyPlan ex_overlord ex_queenA)) ''energy'') = 50"
    by simp
  from th w have 3: "snd (withdrawPlan ex_overlord ex_queenA [Tasks_transferAll ex_storage])
        = [Tasks_transferAll ex_storage, Tasks_withdraw ex_tower ''energy'' 50]"
    by simp
  from a c r 1 2 3 show ?thesis by (intro conjI)
qed

section \<open>Chain ordering\<close>

lemma isDelivery_spec_supplyFill:
  "list_all isDelivery ops \<Longrightarrow> list_all isDelivery (spec_supplyFill cap av reqs ops)"
  by (induction reqs arbitrary: ops) (simp_all add: Let_def)

lemma isWithdraw_spec_withdrawFill:
  "list_all isWithdraw ops \<Longrightarrow> list_all isWithdraw (spec_withdrawFill cap reqs ops)"
  by (induction reqs arbitrary: ops) (simp_all add: Let_def)

lemma isWithdraw_withdrawTasks:
  "list_all isWithdraw (map (\<lambda>(rt, amt). Tasks_withdraw wt rt amt) qc)"
  by (induction qc) auto

lemma supplyFlush_Inr:
  "supplyFlush this queen = Inr (tasks, queenPos) \<Longrightarrow>
   (if sum_values (carry queen) > 0
    then \<exists>tt. transferTarget this = Some tt \<and> tasks = [Tasks_transferAll tt] \<and> queenPos = pos tt
    else tasks = [] \<and> queenPos = pos queen)"
  by (auto simp: supplyFlush_def split: if_splits option.splits)

lemma withdrawFlush_Inr:
  "withdrawFlush this queen = Inr tasks \<Longrightarrow>
   (if sum_values (carry queen) > 0
    then \<exists>tt. transferTarget this = Some tt \<and> tasks = [Tasks_transferAll tt]
    else tasks = [])"
  by (auto simp: withdrawFlush_def split: if_splits option.splits)

text \<open>
  Claim C3. A supply manifest that is built is the flush tasks, then one withdrawal per
  resource of the simulated carry, all from one structure, then the supply tasks, which are
  deliveries; a withdraw manifest that is built is the flush tasks, then the withdrawals of
  the fill, then one final flush to the transfer target, also when the fill produced no
  withdrawal. In both, the flush tasks are at most one flush, present exactly when the sum
  of the queen's carry is positive.
\<close>

theorem chain_ordering:
  "(\<forall>m. buildSupplyTaskManifest B this queen = Inr m \<longrightarrow>
      (\<exists>flush wt.
         chained m = flush
                     @ map (\<lambda>(rt, amt). Tasks_withdraw wt rt amt) (fst (supplyPlan this queen))
                     @ snd (supplyPlan this queen)
         \<and> length flush \<le> 1 \<and> list_all isFlush flush
         \<and> (flush \<noteq> [] \<longleftrightarrow> sum_values (carry queen) > 0)
         \<and> list_all isWithdraw (map (\<lambda>(rt, amt). Tasks_withdraw wt rt amt) (fst (supplyPlan this queen)))
         \<and> list_all isDelivery (snd (supplyPlan this queen))))
   \<and> (\<forall>m. buildWithdrawTaskManifest this queen = Inr m \<longrightarrow>
      (\<exists>flush ws tt.
         chained m = flush @ ws @ [Tasks_transferAll tt]
         \<and> length flush \<le> 1 \<and> list_all isFlush flush
         \<and> (flush \<noteq> [] \<longleftrightarrow> sum_values (carry queen) > 0)
         \<and> list_all isWithdraw ws
         \<and> ws = spec_withdrawFill (carryCapacity queen)
                  (requestsFor (withdrawByID (transportRequests this)) (assigned this queen)) []
         \<and> transferTarget this = Some tt))"
proof (intro conjI allI impI)
  fix m assume "buildSupplyTaskManifest B this queen = Inr m"
  then obtain tasks queenPos wt where
    fl: "supplyFlush this queen = Inr (tasks, queenPos)" and
    m: "m = Tasks_chain (tasks @ map (\<lambda>(rt, amt). Tasks_withdraw wt rt amt) (fst (supplyPlan this queen))
                          @ snd (supplyPlan this queen))"
    using buildSupply_Inr by blast
  have f: "length tasks \<le> 1 \<and> list_all isFlush tasks \<and> (tasks \<noteq> [] \<longleftrightarrow> sum_values (carry queen) > 0)"
    using supplyFlush_Inr[OF fl] by (auto split: if_splits)
  have d: "list_all isDelivery (snd (supplyPlan this queen))"
    using supplyPlan_refines[of this queen] isDelivery_spec_supplyFill[of "[]"] by simp
  show "\<exists>flush wt.
         chained m = flush
                     @ map (\<lambda>(rt, amt). Tasks_withdraw wt rt amt) (fst (supplyPlan this queen))
                     @ snd (supplyPlan this queen)
         \<and> length flush \<le> 1 \<and> list_all isFlush flush
         \<and> (flush \<noteq> [] \<longleftrightarrow> sum_values (carry queen) > 0)
         \<and> list_all isWithdraw (map (\<lambda>(rt, amt). Tasks_withdraw wt rt amt) (fst (supplyPlan this queen)))
         \<and> list_all isDelivery (snd (supplyPlan this queen))"
    using f d isWithdraw_withdrawTasks[of wt "fst (supplyPlan this queen)"] m
    by (intro exI[of _ tasks] exI[of _ wt]) simp
next
  fix m assume "buildWithdrawTaskManifest this queen = Inr m"
  then obtain tasks0 tt where
    fl: "withdrawFlush this queen = Inr tasks0" and tt: "transferTarget this = Some tt" and
    m: "m = Tasks_chain (snd (withdrawPlan this queen tasks0) @ [Tasks_transferAll tt])"
    using buildWithdraw_Inr by blast
  let ?ws = "spec_withdrawFill (carryCapacity queen)
                  (requestsFor (withdrawByID (transportRequests this)) (assigned this queen)) []"
  have f: "length tasks0 \<le> 1 \<and> list_all isFlush tasks0 \<and> (tasks0 \<noteq> [] \<longleftrightarrow> sum_values (carry queen) > 0)"
    using withdrawFlush_Inr[OF fl] by (auto split: if_splits)
  have w: "list_all isWithdraw ?ws"
    using isWithdraw_spec_withdrawFill[of "[]"] by simp
  have c: "chained m = tasks0 @ ?ws @ [Tasks_transferAll tt]"
    using withdrawPlan_refines[of this queen tasks0] by (simp add: m)
  show "\<exists>flush ws tt.
         chained m = flush @ ws @ [Tasks_transferAll tt]
         \<and> length flush \<le> 1 \<and> list_all isFlush flush
         \<and> (flush \<noteq> [] \<longleftrightarrow> sum_values (carry queen) > 0)
         \<and> list_all isWithdraw ws
         \<and> ws = ?ws
         \<and> transferTarget this = Some tt"
    using f w c tt by (intro exI[of _ tasks0] exI[of _ ?ws] exI[of _ tt]) simp
qed

text \<open>
  The theorem at queen b of the example, and at a queen of capacity 0 that carries energy:
  its fill produces no withdrawal and its manifest is the first flush and the final one.
\<close>

theorem chain_ordering_witness:
  "buildSupplyTaskManifest ex_bunker ex_overlord ex_queenB =
       Inr (Tasks_chain [Tasks_withdraw ex_battery ''energy'' 30, Tasks_withdraw ex_battery ''H'' 10,
                         Tasks_transfer ex_spawn ''energy'' 30, Tasks_transfer ex_lab ''H'' 10])
   \<and> (\<exists>flush wt. [Tasks_withdraw ex_battery ''energy'' 30, Tasks_withdraw ex_battery ''H'' 10,
                   Tasks_transfer ex_spawn ''energy'' 30, Tasks_transfer ex_lab ''H'' 10]
         = flush @ map (\<lambda>(rt, amt). Tasks_withdraw wt rt amt)
                     (fst (supplyPlan ex_overlord ex_queenB))
                 @ snd (supplyPlan ex_overlord ex_queenB)
         \<and> list_all isFlush flush
         \<and> list_all isDelivery (snd (supplyPlan ex_overlord ex_queenB)))
   \<and> buildWithdrawTaskManifest ex_overlord (ex_queenA\<lparr>carryCapacity := 0\<rparr>) =
       Inr (Tasks_chain [Tasks_transferAll ex_storage, Tasks_transferAll ex_storage])
   \<and> (\<exists>flush ws tt. [Tasks_transferAll ex_storage, Tasks_transferAll ex_storage]
         = flush @ ws @ [Tasks_transferAll tt] \<and> length flush \<le> 1 \<and> list_all isWithdraw ws)"
proof -
  have bB: "buildSupplyTaskManifest ex_bunker ex_overlord ex_queenB =
       Inr (Tasks_chain [Tasks_withdraw ex_battery ''energy'' 30, Tasks_withdraw ex_battery ''H'' 10,
                         Tasks_transfer ex_spawn ''energy'' 30, Tasks_transfer ex_lab ''H'' 10])"
    by code_simp
  have bA: "buildWithdrawTaskManifest ex_overlord (ex_queenA\<lparr>carryCapacity := 0\<rparr>) =
       Inr (Tasks_chain [Tasks_transferAll ex_storage, Tasks_transferAll ex_storage])"
    by code_simp
  from chain_ordering[of ex_bunker ex_overlord ex_queenB] bB
  have 1: "\<exists>flush wt. [Tasks_withdraw ex_battery ''energy'' 30, Tasks_withdraw ex_battery ''H'' 10,
                   Tasks_transfer ex_spawn ''energy'' 30, Tasks_transfer ex_lab ''H'' 10]
         = flush @ map (\<lambda>(rt, amt). Tasks_withdraw wt rt amt)
                     (fst (supplyPlan ex_overlord ex_queenB))
                 @ snd (supplyPlan ex_overlord ex_queenB)
         \<and> list_all isFlush flush
         \<and> list_all isDelivery (snd (supplyPlan ex_overlord ex_queenB))"
    by fastforce
  from chain_ordering[of ex_bunker ex_overlord "ex_queenA\<lparr>carryCapacity := 0\<rparr>"] bA
  have 2: "\<exists>flush ws tt. [Tasks_transferAll ex_storage, Tasks_transferAll ex_storage]
         = flush @ ws @ [Tasks_transferAll tt] \<and> length flush \<le> 1 \<and> list_all isWithdraw ws"
    by fastforce
  from bB bA 1 2 show ?thesis by blast
qed

section \<open>Source selection\<close>

lemma minByFrom_min:
  "minByFrom f best xs \<in> set (best # xs) \<and> (\<forall>x \<in> set (best # xs). f (minByFrom f best xs) \<le> f x)"
proof (induction xs arbitrary: best)
  case Nil
  then show ?case by simp
next
  case (Cons y ys)
  from Cons[of "if f y < f best then y else best"] show ?case
    by (auto split: if_splits)
qed

lemma minBy_min:
  "xs \<noteq> [] \<Longrightarrow> \<exists>m \<in> set xs. minBy xs f = Some m \<and> (\<forall>x \<in> set xs. f m \<le> f x)"
  using minByFrom_min[of f "hd xs" "tl xs"] by (cases xs) auto

lemma withdrawTargets_iff:
  "s \<in> set (withdrawTargets this qc) \<longleftrightarrow>
   s \<in> set (storeStructures this)
   \<and> (\<forall>r \<in> fst ` set qc. orZero (map_of (store s) r) \<ge> orZero (map_of qc r))"
  by (auto simp: withdrawTargets_def Let_def list_all_iff)

lemma nonzero_is_key: "orZero (map_of qc r) \<noteq> 0 \<Longrightarrow> r \<in> fst ` set qc"
  by (cases "map_of qc r") (auto dest: map_of_SomeD simp: rev_image_eqI)

lemma withdrawTarget_cases:
  "(withdrawTargets this qc = [] \<longrightarrow> withdrawTarget B this queenPos qc = None)
   \<and> (\<forall>s. withdrawTargets this qc = [s] \<longrightarrow> withdrawTarget B this queenPos qc = Some s)
   \<and> (withdrawTargets this qc \<noteq> [] \<longrightarrow>
        (\<exists>wt \<in> set (withdrawTargets this qc). withdrawTarget B this queenPos qc = Some wt
           \<and> (\<forall>t \<in> set (withdrawTargets this qc).
                 distance B queenPos (pos wt) \<le> distance B queenPos (pos t))))"
proof (intro conjI allI impI)
  assume "withdrawTargets this qc = []"
  then show "withdrawTarget B this queenPos qc = None" by (simp add: withdrawTarget_def)
next
  fix s assume "withdrawTargets this qc = [s]"
  then show "withdrawTarget B this queenPos qc = Some s" by (simp add: withdrawTarget_def)
next
  assume ne: "withdrawTargets this qc \<noteq> []"
  show "\<exists>wt \<in> set (withdrawTargets this qc). withdrawTarget B this queenPos qc = Some wt
           \<and> (\<forall>t \<in> set (withdrawTargets this qc).
                 distance B queenPos (pos wt) \<le> distance B queenPos (pos t))"
  proof (cases "length (withdrawTargets this qc) > 1")
    case True
    with minBy_min[OF ne, of "\<lambda>t. distance B queenPos (pos t)"] show ?thesis
      by (simp add: withdrawTarget_def Let_def)
  next
    case False
    with ne obtain s where "withdrawTargets this qc = [s]"
      by (cases "withdrawTargets this qc") auto
    then show ?thesis by (simp add: withdrawTarget_def)
  qed
qed

lemma buildSupply_after_flush:
  "supplyFlush this queen = Inr (tasks, queenPos) \<Longrightarrow>
   buildSupplyTaskManifest B this queen =
     (case withdrawTarget B this queenPos (fst (supplyPlan this queen)) of
        None \<Rightarrow> Inl (NoWithdrawTarget (name queen) (pos queen))
      | Some wt \<Rightarrow> Inr (Tasks_chain (tasks
            @ map (\<lambda>(rt, amt). Tasks_withdraw wt rt amt) (fst (supplyPlan this queen))
            @ snd (supplyPlan this queen))))"
  by (simp add: buildSupplyTaskManifest_def Let_def split: prod.splits option.splits)

text \<open>
  Claim C1. After the flush step of the supply path: a store structure qualifies exactly when
  it is one of the overlord's store structures and, for every key of the simulated carry, its
  stock is at least the simulated amount; so a qualifying structure has, for every resource
  of nonzero simulated carry, a stock of at least that amount. The queen's position then is
  the flush target's when the flush was planned, else her own. If none qualifies the build
  returns the warning that there is no withdraw target; if exactly one qualifies the
  withdrawals are from it; and whenever some qualify, the structure the withdrawals are from
  qualifies and is at least as near to that position as every qualifying structure.
\<close>

theorem source_selection:
  assumes fl: "supplyFlush this queen = Inr (tasks, queenPos)"
  shows "(\<forall>s. s \<in> set (withdrawTargets this (fst (supplyPlan this queen))) \<longleftrightarrow>
             s \<in> set (storeStructures this)
             \<and> (\<forall>r \<in> fst ` set (fst (supplyPlan this queen)).
                   orZero (map_of (store s) r) \<ge> orZero (map_of (fst (supplyPlan this queen)) r)))
       \<and> (\<forall>s \<in> set (withdrawTargets this (fst (supplyPlan this queen))).
             \<forall>r. orZero (map_of (fst (supplyPlan this queen)) r) \<noteq> 0 \<longrightarrow>
                   orZero (map_of (store s) r) \<ge> orZero (map_of (fst (supplyPlan this queen)) r))
       \<and> (if sum_values (carry queen) > 0
            then \<exists>tt. transferTarget this = Some tt \<and> queenPos = pos tt
            else queenPos = pos queen)
       \<and> (withdrawTargets this (fst (supplyPlan this queen)) = [] \<longrightarrow>
             buildSupplyTaskManifest B this queen = Inl (NoWithdrawTarget (name queen) (pos queen)))
       \<and> (\<forall>s. withdrawTargets this (fst (supplyPlan this queen)) = [s] \<longrightarrow>
             buildSupplyTaskManifest B this queen =
               Inr (Tasks_chain (tasks
                 @ map (\<lambda>(rt, amt). Tasks_withdraw s rt amt) (fst (supplyPlan this queen))
                 @ snd (supplyPlan this queen))))
       \<and> (withdrawTargets this (fst (supplyPlan this queen)) \<noteq> [] \<longrightarrow>
             (\<exists>wt \<in> set (withdrawTargets this (fst (supplyPlan this queen))).
                (\<forall>t \<in> set (withdrawTargets this (fst (supplyPlan this queen))).
                    distance B queenPos (pos wt) \<le> distance B queenPos (pos t))
                \<and> buildSupplyTaskManifest B this queen =
                    Inr (Tasks_chain (tasks
                      @ map (\<lambda>(rt, amt). Tasks_withdraw wt rt amt) (fst (supplyPlan this queen))
                      @ snd (supplyPlan this queen)))))"
proof -
  let ?qc = "fst (supplyPlan this queen)"
  note b = buildSupply_after_flush[OF fl, of B]
  note c = withdrawTarget_cases[of this ?qc B queenPos]
  have 1: "\<forall>s. s \<in> set (withdrawTargets this ?qc) \<longleftrightarrow>
             s \<in> set (storeStructures this)
             \<and> (\<forall>r \<in> fst ` set ?qc. orZero (map_of (store s) r) \<ge> orZero (map_of ?qc r))"
    by (intro allI) (rule withdrawTargets_iff)
  have 2: "\<forall>s \<in> set (withdrawTargets this ?qc).
             \<forall>r. orZero (map_of ?qc r) \<noteq> 0 \<longrightarrow> orZero (map_of (store s) r) \<ge> orZero (map_of ?qc r)"
  proof (intro ballI allI impI)
    fix s r
    assume s: "s \<in> set (withdrawTargets this ?qc)" and nz: "orZero (map_of ?qc r) \<noteq> 0"
    from nonzero_is_key[OF nz] have "r \<in> fst ` set ?qc" .
    with s show "orZero (map_of (store s) r) \<ge> orZero (map_of ?qc r)"
      by (simp only: withdrawTargets_iff)
  qed
  have 3: "if sum_values (carry queen) > 0
            then \<exists>tt. transferTarget this = Some tt \<and> queenPos = pos tt
            else queenPos = pos queen"
    using supplyFlush_Inr[OF fl] by (auto split: if_splits)
  have 4: "withdrawTargets this ?qc = [] \<longrightarrow>
             buildSupplyTaskManifest B this queen = Inl (NoWithdrawTarget (name queen) (pos queen))"
  proof
    assume "withdrawTargets this ?qc = []"
    with c have "withdrawTarget B this queenPos ?qc = None" by simp
    then show "buildSupplyTaskManifest B this queen = Inl (NoWithdrawTarget (name queen) (pos queen))"
      by (simp add: b)
  qed
  have 5: "\<forall>s. withdrawTargets this ?qc = [s] \<longrightarrow>
             buildSupplyTaskManifest B this queen =
               Inr (Tasks_chain (tasks @ map (\<lambda>(rt, amt). Tasks_withdraw s rt amt) ?qc
                                  @ snd (supplyPlan this queen)))"
  proof (intro allI impI)
    fix s assume "withdrawTargets this ?qc = [s]"
    with c have "withdrawTarget B this queenPos ?qc = Some s" by blast
    then show "buildSupplyTaskManifest B this queen =
               Inr (Tasks_chain (tasks @ map (\<lambda>(rt, amt). Tasks_withdraw s rt amt) ?qc
                                  @ snd (supplyPlan this queen)))"
      by (simp add: b)
  qed
  have 6: "withdrawTargets this ?qc \<noteq> [] \<longrightarrow>
             (\<exists>wt \<in> set (withdrawTargets this ?qc).
                (\<forall>t \<in> set (withdrawTargets this ?qc).
                    distance B queenPos (pos wt) \<le> distance B queenPos (pos t))
                \<and> buildSupplyTaskManifest B this queen =
                    Inr (Tasks_chain (tasks @ map (\<lambda>(rt, amt). Tasks_withdraw wt rt amt) ?qc
                                       @ snd (supplyPlan this queen))))"
  proof
    assume "withdrawTargets this ?qc \<noteq> []"
    with c obtain wt where "wt \<in> set (withdrawTargets this ?qc)"
      "withdrawTarget B this queenPos ?qc = Some wt"
      "\<forall>t \<in> set (withdrawTargets this ?qc). distance B queenPos (pos wt) \<le> distance B queenPos (pos t)"
      by blast
    then show "\<exists>wt \<in> set (withdrawTargets this ?qc).
                (\<forall>t \<in> set (withdrawTargets this ?qc).
                    distance B queenPos (pos wt) \<le> distance B queenPos (pos t))
                \<and> buildSupplyTaskManifest B this queen =
                    Inr (Tasks_chain (tasks @ map (\<lambda>(rt, amt). Tasks_withdraw wt rt amt) ?qc
                                       @ snd (supplyPlan this queen)))"
      using b by (intro bexI[of _ wt]) simp_all
  qed
  from 1 2 3 4 5 6 show ?thesis by (intro conjI)
qed



text \<open>
  The theorem at queen b of the example when the spawn asks for 30 energy: the storage and
  the battery both qualify and the battery, second in the list, is nearer; and when the
  spawn asks for 30 H, of which the storage holds 5 and the battery 20: 25 are planned and
  neither qualifies.
\<close>

theorem source_selection_witness:
  "supplyFlush (ex_overlord_of ex_colony_energy) ex_queenB = Inr ([], pos ex_queenB)
   \<and> withdrawTargets (ex_overlord_of ex_colony_energy) [(''energy'', 30)] = [ex_storage, ex_battery]
   \<and> (\<exists>wt \<in> set [ex_storage, ex_battery].
         distance ex_bunker (pos ex_queenB) (pos wt) \<le> distance ex_bunker (pos ex_queenB) (pos ex_storage)
         \<and> distance ex_bunker (pos ex_queenB) (pos wt) \<le> distance ex_bunker (pos ex_queenB) (pos ex_battery)
         \<and> buildSupplyTaskManifest ex_bunker (ex_overlord_of ex_colony_energy) ex_queenB =
             Inr (Tasks_chain [Tasks_withdraw wt ''energy'' 30, Tasks_transfer ex_spawn ''energy'' 30]))
   \<and> buildSupplyTaskManifest ex_bunker (ex_overlord_of ex_colony_energy) ex_queenB =
         Inr (Tasks_chain [Tasks_withdraw ex_battery ''energy'' 30, Tasks_transfer ex_spawn ''energy'' 30])
   \<and> supplyFlush (ex_overlord_of ex_colony_split) ex_queenB = Inr ([], pos ex_queenB)
   \<and> withdrawTargets (ex_overlord_of ex_colony_split) [(''H'', 25)] = []
   \<and> buildSupplyTaskManifest ex_bunker (ex_overlord_of ex_colony_split) ex_queenB =
         Inl (NoWithdrawTarget ''b'' (RoomPosition 25 24 ''W1N1''))"
proof -
  have f1: "supplyFlush (ex_overlord_of ex_colony_energy) ex_queenB = Inr ([], pos ex_queenB)"
    by code_simp
  have p1: "supplyPlan (ex_overlord_of ex_colony_energy) ex_queenB
              = ([(''energy'', 30)], [Tasks_transfer ex_spawn ''energy'' 30])"
    by code_simp
  have t1: "withdrawTargets (ex_overlord_of ex_colony_energy) [(''energy'', 30)] = [ex_storage, ex_battery]"
    by code_simp
  have b1: "buildSupplyTaskManifest ex_bunker (ex_overlord_of ex_colony_energy) ex_queenB =
         Inr (Tasks_chain [Tasks_withdraw ex_battery ''energy'' 30, Tasks_transfer ex_spawn ''energy'' 30])"
    by code_simp
  have f2: "supplyFlush (ex_overlord_of ex_colony_split) ex_queenB = Inr ([], pos ex_queenB)"
    by code_simp
  have p2: "supplyPlan (ex_overlord_of ex_colony_split) ex_queenB
              = ([(''H'', 25)], [Tasks_transfer ex_spawn ''H'' 25])"
    by code_simp
  have t2: "withdrawTargets (ex_overlord_of ex_colony_split) [(''H'', 25)] = []"
    by code_simp
  have n: "name ex_queenB = ''b''" and q: "pos ex_queenB = RoomPosition 25 24 ''W1N1''"
    by code_simp+
  from source_selection[OF f1, of ex_bunker]
  have 1: "\<exists>wt \<in> set [ex_storage, ex_battery].
         distance ex_bunker (pos ex_queenB) (pos wt) \<le> distance ex_bunker (pos ex_queenB) (pos ex_storage)
         \<and> distance ex_bunker (pos ex_queenB) (pos wt) \<le> distance ex_bunker (pos ex_queenB) (pos ex_battery)
         \<and> buildSupplyTaskManifest ex_bunker (ex_overlord_of ex_colony_energy) ex_queenB =
             Inr (Tasks_chain [Tasks_withdraw wt ''energy'' 30, Tasks_transfer ex_spawn ''energy'' 30])"
    unfolding p1 fst_conv snd_conv t1 by simp
  from source_selection[OF f2, of ex_bunker]
  have 2: "buildSupplyTaskManifest ex_bunker (ex_overlord_of ex_colony_split) ex_queenB =
         Inl (NoWithdrawTarget ''b'' (RoomPosition 25 24 ''W1N1''))"
    unfolding p2 fst_conv snd_conv t2 n q by simp
  from f1 t1 1 b1 f2 t2 2 show ?thesis by (intro conjI)
qed

section \<open>The supply path with an empty simulated carry\<close>

lemma compact_append_Some: "compact (xs @ map Some ys) = compact xs @ ys"
  by (induction xs rule: compact.induct) (simp_all, induction ys, simp_all)

lemma storeStructures_constructed:
  "storeStructures (BunkerQueenOverlord B col zergs) =
     compact [terminal col, storage col]
     @ filter (\<lambda>container. insideBunkerBounds B (pos container)) (containers col)"
  using compact_append_Some[of "[terminal col, storage col]"]
  by (simp add: BunkerQueenOverlord_def Let_def)

lemma transferTarget_constructed:
  "transferTarget (BunkerQueenOverlord B col zergs) = first (storeStructures (BunkerQueenOverlord B col zergs))"
  unfolding storeStructures_constructed
  by (cases "terminal col"; cases "storage col")
     (simp_all add: transferTarget_def BunkerQueenOverlord_def Let_def)

lemma first_None: "first xs = None \<longleftrightarrow> xs = []"
  by (cases xs) simp_all

lemma supplyLoop_nonempty:
  "qc \<noteq> [] \<Longrightarrow> fst (supplyLoop cap a reqs (qc, ts)) \<noteq> []"
  by (induction reqs arbitrary: qc ts) (simp_all add: Let_def addCarry_not_Nil)

lemma supplyLoop_empty:
  "fst (supplyLoop cap a reqs (qc, ts)) = [] \<Longrightarrow> snd (supplyLoop cap a reqs (qc, ts)) = ts"
proof (induction reqs arbitrary: qc ts)
  case Nil
  then show ?case by simp
next
  case (Cons request rest)
  then show ?case
    using supplyLoop_nonempty[OF addCarry_not_Nil]
    by (simp add: Let_def split: if_splits)
qed

lemma withdrawTargets_Nil: "withdrawTargets this [] = storeStructures this"
  by (simp add: withdrawTargets_def)

lemma withdrawTarget_None:
  "withdrawTarget B this queenPos qc = None \<longleftrightarrow> withdrawTargets this qc = []"
  using withdrawTarget_cases[of this qc B queenPos] by (cases "withdrawTargets this qc = []") auto

text \<open>
  Claim C10. For an overlord as its constructor builds it, whose store structures are the
  terminal, the storage and the containers inside the bunker bounds: when the supply loop
  leaves the simulated carry empty, it has planned no delivery, every store structure
  passes the filter, and if there is a store structure the build hands \<open>Tasks.chain\<close> the
  flush tasks alone (no withdrawal, no delivery): the flush to the transfer target when the
  sum of the queen's carry is positive, and nothing otherwise. It returns the warning that
  there is no withdraw target only when there is no store structure; without one it returns
  that warning, or the warning of the flush when the queen carries something.
\<close>

theorem empty_carry_supply:
  assumes built: "this = BunkerQueenOverlord B col zergs"
      and empty: "fst (supplyPlan this queen) = []"
  shows "storeStructures this =
           compact [terminal col, storage col]
           @ filter (\<lambda>container. insideBunkerBounds B (pos container)) (containers col)
       \<and> withdrawTargets this (fst (supplyPlan this queen)) = storeStructures this
       \<and> snd (supplyPlan this queen) = []
       \<and> (storeStructures this \<noteq> [] \<longrightarrow>
            (\<exists>flush. buildSupplyTaskManifest B this queen = Inr (Tasks_chain flush)
                \<and> length flush \<le> 1 \<and> list_all isFlush flush))
       \<and> (storeStructures this \<noteq> [] \<longrightarrow>
            (\<exists>tt. transferTarget this = Some tt
                \<and> buildSupplyTaskManifest B this queen =
                    Inr (Tasks_chain (if sum_values (carry queen) > 0
                                      then [Tasks_transferAll tt] else []))))
       \<and> (\<forall>n p. buildSupplyTaskManifest B this queen = Inl (NoWithdrawTarget n p) \<longrightarrow>
            storeStructures this = [])
       \<and> (storeStructures this = [] \<longrightarrow>
            buildSupplyTaskManifest B this queen =
              Inl (if sum_values (carry queen) > 0 then NoTransferTargets (name queen) (pos queen)
                   else NoWithdrawTarget (name queen) (pos queen)))"
proof -
  have 1: "storeStructures this =
           compact [terminal col, storage col]
           @ filter (\<lambda>container. insideBunkerBounds B (pos container)) (containers col)"
    unfolding built by (rule storeStructures_constructed)
  have 2: "withdrawTargets this (fst (supplyPlan this queen)) = storeStructures this"
    by (simp add: empty withdrawTargets_Nil)
  have 3: "snd (supplyPlan this queen) = []"
    using empty supplyLoop_empty[of "carryCapacity queen" _ _ "[]" "[]"]
    by (simp add: supplyPlan_def Let_def)
  have tt: "transferTarget this = first (storeStructures this)"
    unfolding built by (rule transferTarget_constructed)
  have wt: "withdrawTarget B this queenPos [] = None \<longleftrightarrow> storeStructures this = []" for queenPos
    by (simp add: withdrawTarget_None withdrawTargets_Nil)
  have 4: "storeStructures this \<noteq> [] \<longrightarrow>
            (\<exists>tt. transferTarget this = Some tt
                \<and> buildSupplyTaskManifest B this queen =
                    Inr (Tasks_chain (if sum_values (carry queen) > 0
                                      then [Tasks_transferAll tt] else [])))"
  proof
    assume ne: "storeStructures this \<noteq> []"
    then obtain t where t: "transferTarget this = Some t"
      using tt by (cases "storeStructures this") auto
    have "\<exists>tasks queenPos. supplyFlush this queen = Inr (tasks, queenPos)"
      by (simp add: supplyFlush_def t)
    then obtain tasks queenPos where fl: "supplyFlush this queen = Inr (tasks, queenPos)"
      by blast
    obtain w where w: "withdrawTarget B this queenPos [] = Some w"
      using wt[of queenPos] ne by (cases "withdrawTarget B this queenPos []") auto
    have "buildSupplyTaskManifest B this queen = Inr (Tasks_chain tasks)"
      using buildSupply_after_flush[OF fl, of B] by (simp add: empty 3 w)
    moreover have "tasks = (if sum_values (carry queen) > 0 then [Tasks_transferAll t] else [])"
      using supplyFlush_Inr[OF fl] t by (auto split: if_splits)
    ultimately show "\<exists>tt. transferTarget this = Some tt
                \<and> buildSupplyTaskManifest B this queen =
                    Inr (Tasks_chain (if sum_values (carry queen) > 0
                                      then [Tasks_transferAll tt] else []))"
      using t by simp
  qed
  have 5: "storeStructures this \<noteq> [] \<longrightarrow>
            (\<exists>flush. buildSupplyTaskManifest B this queen = Inr (Tasks_chain flush)
                \<and> length flush \<le> 1 \<and> list_all isFlush flush)"
  proof
    assume "storeStructures this \<noteq> []"
    with 4 obtain t where
      b: "buildSupplyTaskManifest B this queen =
            Inr (Tasks_chain (if sum_values (carry queen) > 0 then [Tasks_transferAll t] else []))"
      by blast
    have "length (if sum_values (carry queen) > 0 then [Tasks_transferAll t] else []) \<le> 1
          \<and> list_all isFlush (if sum_values (carry queen) > 0 then [Tasks_transferAll t] else [])"
      by simp
    with b show "\<exists>flush. buildSupplyTaskManifest B this queen = Inr (Tasks_chain flush)
                \<and> length flush \<le> 1 \<and> list_all isFlush flush"
      by blast
  qed
  have 6: "\<forall>n p. buildSupplyTaskManifest B this queen = Inl (NoWithdrawTarget n p) \<longrightarrow>
            storeStructures this = []"
  proof (intro allI impI)
    fix n p assume a: "buildSupplyTaskManifest B this queen = Inl (NoWithdrawTarget n p)"
    show "storeStructures this = []"
    proof (rule ccontr)
      assume "storeStructures this \<noteq> []"
      with 5 a show False by auto
    qed
  qed
  have 7: "storeStructures this = [] \<longrightarrow>
            buildSupplyTaskManifest B this queen =
              Inl (if sum_values (carry queen) > 0 then NoTransferTargets (name queen) (pos queen)
                   else NoWithdrawTarget (name queen) (pos queen))"
  proof
    assume e: "storeStructures this = []"
    then have t: "transferTarget this = None" using tt by simp
    show "buildSupplyTaskManifest B this queen =
              Inl (if sum_values (carry queen) > 0 then NoTransferTargets (name queen) (pos queen)
                   else NoWithdrawTarget (name queen) (pos queen))"
    proof (cases "sum_values (carry queen) > 0")
      case True
      then show ?thesis by (simp add: buildSupplyTaskManifest_def supplyFlush_def t)
    next
      case False
      then have fl: "supplyFlush this queen = Inr ([], pos queen)" by (simp add: supplyFlush_def)
      have "withdrawTarget B this (pos queen) [] = None" using wt e by simp
      then show ?thesis using buildSupply_after_flush[OF fl, of B] False by (simp add: empty)
    qed
  qed
  from 1 2 3 5 4 6 7 show ?thesis by (intro conjI)
qed

text \<open>
  The theorem where the spawn assigned to queen b asks for 30 of a resource no store holds,
  so that she has a pending delivery request and no removal request, and the loop plans
  nothing: with a storage and a battery in the colony the build hands \<open>Tasks.chain\<close> the
  empty list when she carries nothing, and the flush to the storage alone when she carries
  10 energy. And at queen b in the colony without store structures, where her requests
  plan nothing either and the build returns the warning.
\<close>

theorem empty_carry_supply_witness:
  "anyRequest (supplyByID (transportRequests (ex_overlord_of ex_colony_oxygen)))
      (assigned (ex_overlord_of ex_colony_oxygen) ex_queenB)
   \<and> \<not> anyRequest (withdrawByID (transportRequests (ex_overlord_of ex_colony_oxygen)))
      (assigned (ex_overlord_of ex_colony_oxygen) ex_queenB)
   \<and> requestsFor (supplyByID (transportRequests (ex_overlord_of ex_colony_oxygen)))
        (assigned (ex_overlord_of ex_colony_oxygen) ex_queenB)
        = [\<lparr> target = ex_spawn, resourceType = ''O'', amount = 30 \<rparr>]
   \<and> fst (supplyPlan (ex_overlord_of ex_colony_oxygen) ex_queenB) = []
   \<and> storeStructures (ex_overlord_of ex_colony_oxygen) = [ex_storage, ex_battery]
   \<and> withdrawTargets (ex_overlord_of ex_colony_oxygen) [] = [ex_storage, ex_battery]
   \<and> buildSupplyTaskManifest ex_bunker (ex_overlord_of ex_colony_oxygen) ex_queenB
        = Inr (Tasks_chain [])
   \<and> requestsFor (supplyByID (transportRequests (ex_loaded_overlord_of ex_colony_oxygen)))
        (assigned (ex_loaded_overlord_of ex_colony_oxygen) ex_queenB_loaded)
        = [\<lparr> target = ex_spawn, resourceType = ''O'', amount = 30 \<rparr>]
   \<and> fst (supplyPlan (ex_loaded_overlord_of ex_colony_oxygen) ex_queenB_loaded) = []
   \<and> storeStructures (ex_loaded_overlord_of ex_colony_oxygen) = [ex_storage, ex_battery]
   \<and> transferTarget (ex_loaded_overlord_of ex_colony_oxygen) = Some ex_storage
   \<and> buildSupplyTaskManifest ex_bunker (ex_loaded_overlord_of ex_colony_oxygen) ex_queenB_loaded
        = Inr (Tasks_chain [Tasks_transferAll ex_storage])
   \<and> requestsFor (supplyByID (transportRequests (ex_overlord_of ex_colony_bare)))
        (assigned (ex_overlord_of ex_colony_bare) ex_queenB)
        = [\<lparr> target = ex_spawn, resourceType = ''energy'', amount = 30 \<rparr>,
           \<lparr> target = ex_lab, resourceType = ''H'', amount = 10 \<rparr>]
   \<and> fst (supplyPlan (ex_overlord_of ex_colony_bare) ex_queenB) = []
   \<and> storeStructures (ex_overlord_of ex_colony_bare) = []
   \<and> buildSupplyTaskManifest ex_bunker (ex_overlord_of ex_colony_bare) ex_queenB
        = Inl (NoWithdrawTarget ''b'' (RoomPosition 25 24 ''W1N1''))"
proof -
  have o: "ex_overlord_of ex_colony_oxygen
             = BunkerQueenOverlord ex_bunker ex_colony_oxygen [ex_queenB, ex_queenC, ex_queenA]"
   and l: "ex_loaded_overlord_of ex_colony_oxygen
             = BunkerQueenOverlord ex_bunker ex_colony_oxygen [ex_queenB_loaded, ex_queenC, ex_queenA]"
   and b: "ex_overlord_of ex_colony_bare
             = BunkerQueenOverlord ex_bunker ex_colony_bare [ex_queenB, ex_queenC, ex_queenA]"
    by (simp_all add: ex_overlord_of_def ex_loaded_overlord_of_def)
  have a1: "anyRequest (supplyByID (transportRequests (ex_overlord_of ex_colony_oxygen)))
      (assigned (ex_overlord_of ex_colony_oxygen) ex_queenB)" by code_simp
  have a2: "\<not> anyRequest (withdrawByID (transportRequests (ex_overlord_of ex_colony_oxygen)))
      (assigned (ex_overlord_of ex_colony_oxygen) ex_queenB)" by code_simp
  have r1: "requestsFor (supplyByID (transportRequests (ex_overlord_of ex_colony_oxygen)))
        (assigned (ex_overlord_of ex_colony_oxygen) ex_queenB)
        = [\<lparr> target = ex_spawn, resourceType = ''O'', amount = 30 \<rparr>]" by code_simp
  have e1: "fst (supplyPlan (ex_overlord_of ex_colony_oxygen) ex_queenB) = []" by code_simp
  have s1: "storeStructures (ex_overlord_of ex_colony_oxygen) = [ex_storage, ex_battery]" by code_simp
  have c1: "\<not> sum_values (carry ex_queenB) > 0" by code_simp
  have r3: "requestsFor (supplyByID (transportRequests (ex_loaded_overlord_of ex_colony_oxygen)))
        (assigned (ex_loaded_overlord_of ex_colony_oxygen) ex_queenB_loaded)
        = [\<lparr> target = ex_spawn, resourceType = ''O'', amount = 30 \<rparr>]" by code_simp
  have e3: "fst (supplyPlan (ex_loaded_overlord_of ex_colony_oxygen) ex_queenB_loaded) = []"
    by code_simp
  have s3: "storeStructures (ex_loaded_overlord_of ex_colony_oxygen) = [ex_storage, ex_battery]"
    by code_simp
  have t3: "transferTarget (ex_loaded_overlord_of ex_colony_oxygen) = Some ex_storage" by code_simp
  have c3: "sum_values (carry ex_queenB_loaded) > 0" by code_simp
  have r2: "requestsFor (supplyByID (transportRequests (ex_overlord_of ex_colony_bare)))
        (assigned (ex_overlord_of ex_colony_bare) ex_queenB)
        = [\<lparr> target = ex_spawn, resourceType = ''energy'', amount = 30 \<rparr>,
           \<lparr> target = ex_lab, resourceType = ''H'', amount = 10 \<rparr>]" by code_simp
  have e2: "fst (supplyPlan (ex_overlord_of ex_colony_bare) ex_queenB) = []" by code_simp
  have s2: "storeStructures (ex_overlord_of ex_colony_bare) = []" by code_simp
  have n: "name ex_queenB = ''b''" and q: "pos ex_queenB = RoomPosition 25 24 ''W1N1''"
    by code_simp+
  from empty_carry_supply[OF o e1]
  have 1: "withdrawTargets (ex_overlord_of ex_colony_oxygen) [] = [ex_storage, ex_battery]"
    and 2: "buildSupplyTaskManifest ex_bunker (ex_overlord_of ex_colony_oxygen) ex_queenB
        = Inr (Tasks_chain [])"
    unfolding e1 s1 using c1 by simp_all
  from empty_carry_supply[OF l e3]
  have 3: "buildSupplyTaskManifest ex_bunker (ex_loaded_overlord_of ex_colony_oxygen) ex_queenB_loaded
        = Inr (Tasks_chain [Tasks_transferAll ex_storage])"
    unfolding s3 t3 using c3 by simp
  from empty_carry_supply[OF b e2]
  have 4: "buildSupplyTaskManifest ex_bunker (ex_overlord_of ex_colony_bare) ex_queenB
        = Inl (NoWithdrawTarget ''b'' (RoomPosition 25 24 ''W1N1''))"
    unfolding s2 using c1 by (simp add: n q)
  from a1 a2 r1 e1 s1 1 2 r3 e3 s3 t3 3 r2 e2 s2 4 show ?thesis by (intro conjI)
qed

section \<open>The carry flush and its abort\<close>

lemma sum_values_pos_iff:
  "\<forall>e \<in> set c. 0 \<le> snd e \<Longrightarrow> sum_values c > 0 \<longleftrightarrow> (\<exists>e \<in> set c. snd e \<noteq> 0)"
proof (induction c)
  case Nil
  then show ?case by (simp add: sum_values_def)
next
  case (Cons e c)
  have "0 \<le> sum_list (map snd c)"
    by (rule sum_list_nonneg) (use Cons.prems in auto)
  with Cons show ?case by (auto simp: sum_values_def)
qed

lemma idleActions_task: "idleActions B this (queen\<lparr>task := t\<rparr>) = idleActions B this queen"
  by (simp add: idleActions_def getChargingSpot_def chargingOrigin_def assigned_def
      split: option.splits)

lemma buildSupply_flush_abort:
  "(\<exists>n p. buildSupplyTaskManifest B this queen = Inl (NoTransferTargets n p))
     \<longleftrightarrow> sum_values (carry queen) > 0 \<and> transferTarget this = None"
  by (auto simp: buildSupplyTaskManifest_def supplyFlush_def Let_def
      split: if_splits option.splits prod.splits)

lemma buildSupply_flush_warning:
  "buildSupplyTaskManifest B this queen = Inl (NoTransferTargets n p) \<Longrightarrow> n = name queen \<and> p = pos queen"
  by (auto simp: buildSupplyTaskManifest_def supplyFlush_def Let_def
      split: if_splits option.splits prod.splits)

lemma buildWithdraw_abort:
  "buildWithdrawTaskManifest this queen = Inl w
     \<longleftrightarrow> transferTarget this = None \<and> w = NoTransferTargets (name queen) (pos queen)"
  by (auto simp: buildWithdrawTaskManifest_def withdrawFlush_def Let_def
      split: if_splits option.splits prod.splits)

lemma handleQueen_abort:
  "(anyRequest (withdrawByID (transportRequests this)) (assigned this queen)
      \<and> buildWithdrawTaskManifest this queen = Inl w)
   \<or> (anyRequest (supplyByID (transportRequests this)) (assigned this queen)
      \<and> \<not> anyRequest (withdrawByID (transportRequests this)) (assigned this queen)
      \<and> buildSupplyTaskManifest B this queen = Inl w) \<Longrightarrow>
   handleQueen B this queen = (queen\<lparr>task := None\<rparr>, Log w # idleActions B this queen)"
  by (auto simp: handleQueen_def isIdle_def idleActions_task)

lemma no_flush_withdraws: "list_all isWithdraw xs \<Longrightarrow> \<not> list_ex isFlush xs"
proof (induction xs)
  case Nil
  then show ?case by simp
next
  case (Cons t ts)
  then show ?case by (cases t) simp_all
qed

lemma no_flush_deliveries: "list_all isDelivery xs \<Longrightarrow> \<not> list_ex isFlush xs"
proof (induction xs)
  case Nil
  then show ?case by simp
next
  case (Cons t ts)
  then show ?case by (cases t) simp_all
qed

lemma buildSupply_flush_target:
  assumes b: "buildSupplyTaskManifest B this queen = Inr m"
  shows "if sum_values (carry queen) > 0
         then \<exists>tt rest. transferTarget this = Some tt \<and> chained m = Tasks_transferAll tt # rest
                \<and> \<not> list_ex isFlush rest
         else \<not> list_ex isFlush (chained m)"
proof -
  from buildSupply_Inr[OF b] obtain tasks queenPos wt where
    fl: "supplyFlush this queen = Inr (tasks, queenPos)" and
    m: "m = Tasks_chain (tasks @ map (\<lambda>(rt, amt). Tasks_withdraw wt rt amt) (fst (supplyPlan this queen))
                          @ snd (supplyPlan this queen))"
    by blast
  let ?rest = "map (\<lambda>(rt, amt). Tasks_withdraw wt rt amt) (fst (supplyPlan this queen))
                 @ snd (supplyPlan this queen)"
  have d: "list_all isDelivery (snd (supplyPlan this queen))"
    using supplyPlan_refines[of this queen] isDelivery_spec_supplyFill[of "[]"] by simp
  have r: "\<not> list_ex isFlush ?rest"
    using no_flush_withdraws[OF isWithdraw_withdrawTasks[of wt "fst (supplyPlan this queen)"]]
      no_flush_deliveries[OF d]
    by (simp add: list_ex_append)
  show ?thesis
  proof (cases "sum_values (carry queen) > 0")
    case True
    with supplyFlush_Inr[OF fl] obtain tt where
      "transferTarget this = Some tt" "tasks = [Tasks_transferAll tt]" by auto
    with True r m show ?thesis by simp
  next
    case False
    with supplyFlush_Inr[OF fl] have "tasks = []" by simp
    with False r m show ?thesis by simp
  qed
qed

lemma buildWithdraw_flush_target:
  assumes b: "buildWithdrawTaskManifest this queen = Inr m"
  shows "\<exists>tt ws. transferTarget this = Some tt \<and> list_all isWithdraw ws
           \<and> chained m = (if sum_values (carry queen) > 0 then [Tasks_transferAll tt] else [])
                          @ ws @ [Tasks_transferAll tt]"
proof -
  from buildWithdraw_Inr[OF b] obtain tasks0 tt where
    fl: "withdrawFlush this queen = Inr tasks0" and tt: "transferTarget this = Some tt" and
    m: "m = Tasks_chain (snd (withdrawPlan this queen tasks0) @ [Tasks_transferAll tt])"
    by blast
  let ?ws = "spec_withdrawFill (carryCapacity queen)
                  (requestsFor (withdrawByID (transportRequests this)) (assigned this queen)) []"
  have w: "list_all isWithdraw ?ws"
    using isWithdraw_spec_withdrawFill[of "[]"] by simp
  have c: "chained m = tasks0 @ ?ws @ [Tasks_transferAll tt]"
    using withdrawPlan_refines[of this queen tasks0] by (simp add: m)
  have f: "tasks0 = (if sum_values (carry queen) > 0 then [Tasks_transferAll tt] else [])"
    using withdrawFlush_Inr[OF fl] tt by (auto split: if_splits)
  from tt w c f show ?thesis by blast
qed

text \<open>
  Claim C6, as amended. The transfer target is the terminal, else the storage, else the
  first battery, and it is where both builds send what the queen carries: a supply manifest
  that is built starts with the flush to the transfer target when she carries a nonzero
  amount and holds no flush otherwise; a withdraw manifest that is built is the flush to
  the transfer target when she carries a nonzero amount, then withdrawals, then the final
  flush to the transfer target. For a queen whose carried amounts are not negative, the
  supply build aborts at the flush, with the warning that there are no transfer targets,
  exactly when she carries a nonzero amount and there is no transfer target; the withdraw
  build returns a warning exactly when there is no transfer target, and it is that warning.
  Both name the queen and her position. When the build that \<open>handleQueen\<close> calls returns a
  warning, the queen is idle afterwards, the warning is logged and the idle actions follow.
\<close>

theorem carry_flush:
  assumes nonneg: "\<forall>e \<in> set (carry queen). 0 \<le> snd e"
  shows "(\<forall>t. terminal (its_colony this) = Some t \<longrightarrow> transferTarget this = Some t)
       \<and> (\<forall>s. terminal (its_colony this) = None \<and> storage (its_colony this) = Some s \<longrightarrow>
              transferTarget this = Some s)
       \<and> (terminal (its_colony this) = None \<and> storage (its_colony this) = None \<longrightarrow>
              transferTarget this = first (batteries this))
       \<and> ((\<exists>n p. buildSupplyTaskManifest B this queen = Inl (NoTransferTargets n p))
              \<longleftrightarrow> (\<exists>e \<in> set (carry queen). snd e \<noteq> 0) \<and> transferTarget this = None)
       \<and> (\<forall>n p. buildSupplyTaskManifest B this queen = Inl (NoTransferTargets n p) \<longrightarrow>
              n = name queen \<and> p = pos queen)
       \<and> ((\<exists>w. buildWithdrawTaskManifest this queen = Inl w) \<longleftrightarrow> transferTarget this = None)
       \<and> (\<forall>w. buildWithdrawTaskManifest this queen = Inl w \<longrightarrow>
              w = NoTransferTargets (name queen) (pos queen))
       \<and> (\<forall>w. (anyRequest (withdrawByID (transportRequests this)) (assigned this queen)
                  \<and> buildWithdrawTaskManifest this queen = Inl w)
               \<or> (anyRequest (supplyByID (transportRequests this)) (assigned this queen)
                  \<and> \<not> anyRequest (withdrawByID (transportRequests this)) (assigned this queen)
                  \<and> buildSupplyTaskManifest B this queen = Inl w) \<longrightarrow>
              isIdle (fst (handleQueen B this queen))
              \<and> snd (handleQueen B this queen) = Log w # idleActions B this queen)
       \<and> (\<forall>m. buildSupplyTaskManifest B this queen = Inr m \<longrightarrow>
              (if \<exists>e \<in> set (carry queen). snd e \<noteq> 0
               then \<exists>tt rest. transferTarget this = Some tt
                      \<and> chained m = Tasks_transferAll tt # rest \<and> \<not> list_ex isFlush rest
               else \<not> list_ex isFlush (chained m)))
       \<and> (\<forall>m. buildWithdrawTaskManifest this queen = Inr m \<longrightarrow>
              (\<exists>tt ws. transferTarget this = Some tt \<and> list_all isWithdraw ws
                 \<and> chained m = (if \<exists>e \<in> set (carry queen). snd e \<noteq> 0
                                then [Tasks_transferAll tt] else [])
                                @ ws @ [Tasks_transferAll tt]))"
proof -
  have 1: "\<forall>t. terminal (its_colony this) = Some t \<longrightarrow> transferTarget this = Some t"
    by (simp add: transferTarget_def)
  have 2: "\<forall>s. terminal (its_colony this) = None \<and> storage (its_colony this) = Some s \<longrightarrow>
              transferTarget this = Some s"
    by (simp add: transferTarget_def)
  have 3: "terminal (its_colony this) = None \<and> storage (its_colony this) = None \<longrightarrow>
              transferTarget this = first (batteries this)"
    by (simp add: transferTarget_def)
  have 4: "(\<exists>n p. buildSupplyTaskManifest B this queen = Inl (NoTransferTargets n p))
              \<longleftrightarrow> (\<exists>e \<in> set (carry queen). snd e \<noteq> 0) \<and> transferTarget this = None"
    unfolding buildSupply_flush_abort sum_values_pos_iff[OF nonneg] ..
  have 5: "\<forall>n p. buildSupplyTaskManifest B this queen = Inl (NoTransferTargets n p) \<longrightarrow>
              n = name queen \<and> p = pos queen"
    using buildSupply_flush_warning by blast
  have 6: "(\<exists>w. buildWithdrawTaskManifest this queen = Inl w) \<longleftrightarrow> transferTarget this = None"
    by (simp add: buildWithdraw_abort)
  have 7: "\<forall>w. buildWithdrawTaskManifest this queen = Inl w \<longrightarrow>
              w = NoTransferTargets (name queen) (pos queen)"
    by (simp add: buildWithdraw_abort)
  have 8: "\<forall>w. (anyRequest (withdrawByID (transportRequests this)) (assigned this queen)
                  \<and> buildWithdrawTaskManifest this queen = Inl w)
               \<or> (anyRequest (supplyByID (transportRequests this)) (assigned this queen)
                  \<and> \<not> anyRequest (withdrawByID (transportRequests this)) (assigned this queen)
                  \<and> buildSupplyTaskManifest B this queen = Inl w) \<longrightarrow>
              isIdle (fst (handleQueen B this queen))
              \<and> snd (handleQueen B this queen) = Log w # idleActions B this queen"
  proof (intro allI impI)
    fix w
    assume "(anyRequest (withdrawByID (transportRequests this)) (assigned this queen)
                  \<and> buildWithdrawTaskManifest this queen = Inl w)
               \<or> (anyRequest (supplyByID (transportRequests this)) (assigned this queen)
                  \<and> \<not> anyRequest (withdrawByID (transportRequests this)) (assigned this queen)
                  \<and> buildSupplyTaskManifest B this queen = Inl w)"
    from handleQueen_abort[OF this]
    show "isIdle (fst (handleQueen B this queen))
              \<and> snd (handleQueen B this queen) = Log w # idleActions B this queen"
      by (simp add: isIdle_def)
  qed
  have 9: "\<forall>m. buildSupplyTaskManifest B this queen = Inr m \<longrightarrow>
              (if \<exists>e \<in> set (carry queen). snd e \<noteq> 0
               then \<exists>tt rest. transferTarget this = Some tt
                      \<and> chained m = Tasks_transferAll tt # rest \<and> \<not> list_ex isFlush rest
               else \<not> list_ex isFlush (chained m))"
  proof (intro allI impI)
    fix m assume "buildSupplyTaskManifest B this queen = Inr m"
    from buildSupply_flush_target[OF this]
    show "if \<exists>e \<in> set (carry queen). snd e \<noteq> 0
               then \<exists>tt rest. transferTarget this = Some tt
                      \<and> chained m = Tasks_transferAll tt # rest \<and> \<not> list_ex isFlush rest
               else \<not> list_ex isFlush (chained m)"
      unfolding sum_values_pos_iff[OF nonneg] .
  qed
  have 10: "\<forall>m. buildWithdrawTaskManifest this queen = Inr m \<longrightarrow>
              (\<exists>tt ws. transferTarget this = Some tt \<and> list_all isWithdraw ws
                 \<and> chained m = (if \<exists>e \<in> set (carry queen). snd e \<noteq> 0
                                then [Tasks_transferAll tt] else [])
                                @ ws @ [Tasks_transferAll tt])"
  proof (intro allI impI)
    fix m assume "buildWithdrawTaskManifest this queen = Inr m"
    from buildWithdraw_flush_target[OF this]
    show "\<exists>tt ws. transferTarget this = Some tt \<and> list_all isWithdraw ws
                 \<and> chained m = (if \<exists>e \<in> set (carry queen). snd e \<noteq> 0
                                then [Tasks_transferAll tt] else [])
                                @ ws @ [Tasks_transferAll tt]"
      unfolding sum_values_pos_iff[OF nonneg] .
  qed
  from 1 2 3 4 5 6 7 8 9 10 show ?thesis by (intro conjI)
qed

text \<open>
  The theorem at queen a, who carries 10 energy, in the colony without store structures;
  at the example colony, which has a storage and no terminal; and in the colony that has a
  terminal besides the storage, where queen b carries 10 energy and her supply manifest
  starts with the flush to the terminal, and queen a's withdraw manifest starts and ends
  with it.
\<close>

theorem carry_flush_witness:
  "list_all (\<lambda>e. 0 \<le> snd e) (carry ex_queenA)
   \<and> transferTarget (ex_overlord_of ex_colony_bare) = None
   \<and> buildSupplyTaskManifest ex_bunker (ex_overlord_of ex_colony_bare) ex_queenA
        = Inl (NoTransferTargets ''a'' (RoomPosition 25 25 ''W1N1''))
   \<and> (\<exists>e \<in> set (carry ex_queenA). snd e \<noteq> 0)
   \<and> buildWithdrawTaskManifest (ex_overlord_of ex_colony_bare) ex_queenA
        = Inl (NoTransferTargets ''a'' (RoomPosition 25 25 ''W1N1''))
   \<and> isIdle (fst (handleQueen ex_bunker (ex_overlord_of ex_colony_bare) ex_queenA))
   \<and> snd (handleQueen ex_bunker (ex_overlord_of ex_colony_bare) ex_queenA)
        = [Log (NoTransferTargets ''a'' (RoomPosition 25 25 ''W1N1'')),
           GoTo ''a'' (RoomPosition 25 26 ''W1N1'')]
   \<and> terminal (its_colony ex_overlord) = None \<and> storage (its_colony ex_overlord) = Some ex_storage
   \<and> transferTarget ex_overlord = Some ex_storage
   \<and> list_all (\<lambda>e. 0 \<le> snd e) (carry ex_queenB_loaded)
   \<and> terminal (its_colony (ex_loaded_overlord_of ex_colony_terminal)) = Some ex_terminal
   \<and> storage (its_colony (ex_loaded_overlord_of ex_colony_terminal)) = Some ex_storage
   \<and> transferTarget (ex_loaded_overlord_of ex_colony_terminal) = Some ex_terminal
   \<and> buildSupplyTaskManifest ex_bunker (ex_loaded_overlord_of ex_colony_terminal) ex_queenB_loaded
        = Inr (Tasks_chain [Tasks_transferAll ex_terminal,
                            Tasks_withdraw ex_terminal ''energy'' 30, Tasks_withdraw ex_terminal ''H'' 10,
                            Tasks_transfer ex_spawn ''energy'' 30, Tasks_transfer ex_lab ''H'' 10])
   \<and> (\<exists>tt rest. transferTarget (ex_loaded_overlord_of ex_colony_terminal) = Some tt
         \<and> [Tasks_transferAll ex_terminal,
             Tasks_withdraw ex_terminal ''energy'' 30, Tasks_withdraw ex_terminal ''H'' 10,
             Tasks_transfer ex_spawn ''energy'' 30, Tasks_transfer ex_lab ''H'' 10]
            = Tasks_transferAll tt # rest \<and> \<not> list_ex isFlush rest)
   \<and> buildWithdrawTaskManifest (ex_loaded_overlord_of ex_colony_terminal) ex_queenA
        = Inr (Tasks_chain [Tasks_transferAll ex_terminal, Tasks_withdraw ex_tower ''energy'' 50,
                            Tasks_transferAll ex_terminal])
   \<and> (\<exists>tt ws. transferTarget (ex_loaded_overlord_of ex_colony_terminal) = Some tt
         \<and> list_all isWithdraw ws
         \<and> [Tasks_transferAll ex_terminal, Tasks_withdraw ex_tower ''energy'' 50,
             Tasks_transferAll ex_terminal]
            = [Tasks_transferAll tt] @ ws @ [Tasks_transferAll tt])"
proof -
  have h: "\<forall>e \<in> set (carry ex_queenA). 0 \<le> snd e" by code_simp
  have t: "transferTarget (ex_overlord_of ex_colony_bare) = None" by code_simp
  have s: "buildSupplyTaskManifest ex_bunker (ex_overlord_of ex_colony_bare) ex_queenA
        = Inl (NoTransferTargets ''a'' (RoomPosition 25 25 ''W1N1''))" by code_simp
  have w: "buildWithdrawTaskManifest (ex_overlord_of ex_colony_bare) ex_queenA
        = Inl (NoTransferTargets ''a'' (RoomPosition 25 25 ''W1N1''))" by code_simp
  have a: "anyRequest (withdrawByID (transportRequests (ex_overlord_of ex_colony_bare)))
             (assigned (ex_overlord_of ex_colony_bare) ex_queenA)" by code_simp
  have i: "idleActions ex_bunker (ex_overlord_of ex_colony_bare) ex_queenA
             = [GoTo ''a'' (RoomPosition 25 26 ''W1N1'')]" by code_simp
  have c: "terminal (its_colony ex_overlord) = None" "storage (its_colony ex_overlord) = Some ex_storage"
    by code_simp+
  note th = carry_flush[OF h, of "ex_overlord_of ex_colony_bare" ex_bunker]
  from th s have 1: "\<exists>e \<in> set (carry ex_queenA). snd e \<noteq> 0" by blast
  from th a w have 2: "isIdle (fst (handleQueen ex_bunker (ex_overlord_of ex_colony_bare) ex_queenA))
     \<and> snd (handleQueen ex_bunker (ex_overlord_of ex_colony_bare) ex_queenA)
        = [Log (NoTransferTargets ''a'' (RoomPosition 25 25 ''W1N1'')),
           GoTo ''a'' (RoomPosition 25 26 ''W1N1'')]"
    by (simp add: i)
  from carry_flush[OF h, of ex_overlord] c have 3: "transferTarget ex_overlord = Some ex_storage"
    by simp
  have hb: "\<forall>e \<in> set (carry ex_queenB_loaded). 0 \<le> snd e" by code_simp
  have nb: "\<exists>e \<in> set (carry ex_queenB_loaded). snd e \<noteq> 0" by code_simp
  have ct: "terminal (its_colony (ex_loaded_overlord_of ex_colony_terminal)) = Some ex_terminal"
    "storage (its_colony (ex_loaded_overlord_of ex_colony_terminal)) = Some ex_storage"
    by code_simp+
  have sb: "buildSupplyTaskManifest ex_bunker (ex_loaded_overlord_of ex_colony_terminal) ex_queenB_loaded
        = Inr (Tasks_chain [Tasks_transferAll ex_terminal,
                            Tasks_withdraw ex_terminal ''energy'' 30, Tasks_withdraw ex_terminal ''H'' 10,
                            Tasks_transfer ex_spawn ''energy'' 30, Tasks_transfer ex_lab ''H'' 10])"
    by code_simp
  have wa: "buildWithdrawTaskManifest (ex_loaded_overlord_of ex_colony_terminal) ex_queenA
        = Inr (Tasks_chain [Tasks_transferAll ex_terminal, Tasks_withdraw ex_tower ''energy'' 50,
                            Tasks_transferAll ex_terminal])"
    by code_simp
  note tb = carry_flush[OF hb, of "ex_loaded_overlord_of ex_colony_terminal" ex_bunker]
  note ta = carry_flush[OF h, of "ex_loaded_overlord_of ex_colony_terminal" ex_bunker]
  from tb ct have 4: "transferTarget (ex_loaded_overlord_of ex_colony_terminal) = Some ex_terminal"
    by simp
  from tb sb nb have 5: "\<exists>tt rest. transferTarget (ex_loaded_overlord_of ex_colony_terminal) = Some tt
         \<and> [Tasks_transferAll ex_terminal,
             Tasks_withdraw ex_terminal ''energy'' 30, Tasks_withdraw ex_terminal ''H'' 10,
             Tasks_transfer ex_spawn ''energy'' 30, Tasks_transfer ex_lab ''H'' 10]
            = Tasks_transferAll tt # rest \<and> \<not> list_ex isFlush rest"
    by simp
  from ta wa 1 have 6: "\<exists>tt ws. transferTarget (ex_loaded_overlord_of ex_colony_terminal) = Some tt
         \<and> list_all isWithdraw ws
         \<and> [Tasks_transferAll ex_terminal, Tasks_withdraw ex_tower ''energy'' 50,
             Tasks_transferAll ex_terminal]
            = [Tasks_transferAll tt] @ ws @ [Tasks_transferAll tt]"
    by simp
  have l: "list_all (\<lambda>e. 0 \<le> snd e) (carry ex_queenA)"
    "list_all (\<lambda>e. 0 \<le> snd e) (carry ex_queenB_loaded)"
    using h hb by (simp_all add: list_all_iff)
  note i2 = conjunct1[OF 2] conjunct2[OF 2]
  from l(1) t s 1 w i2 c 3 l(2) ct 4 sb 5 wa 6 show ?thesis by (intro conjI)
qed

text \<open>
  Claim C6 as stated has the supply build abort only for lack of a transfer target. It also
  aborts for lack of a withdraw target: queen b carries nothing and the colony has a
  storage, yet the build returns a warning when the spawn asks for 30 H, which no single
  store holds.
\<close>

theorem carry_flush_counterexample:
  "carry ex_queenB = []
   \<and> transferTarget (ex_overlord_of ex_colony_split) = Some ex_storage
   \<and> buildSupplyTaskManifest ex_bunker (ex_overlord_of ex_colony_split) ex_queenB
        = Inl (NoWithdrawTarget ''b'' (RoomPosition 25 24 ''W1N1''))"
  by code_simp

section \<open>The dispatcher\<close>

lemma handleQueen_idle:
  "isIdle queen \<Longrightarrow>
   (case handleQueen B this queen of (queen1, evs) \<Rightarrow> (queen1, evs @ [Run (name queen1)]))
     = spec_turn B this queen"
  by (auto simp: handleQueen_def spec_turn_def isIdle_def idleActions_task split: sum.splits)

lemma runLoop_turns:
  "runLoop B this qs = (map (\<lambda>q. fst (spec_turn B this q)) qs,
                        concat (map (\<lambda>q. snd (spec_turn B this q)) qs))"
proof (induction qs)
  case Nil
  then show ?case by simp
next
  case (Cons queen rest)
  show ?case
  proof (cases "isIdle queen")
    case True
    from handleQueen_idle[OF True, of B this, symmetric] Cons show ?thesis
      by (simp add: True split: prod.splits)
  next
    case False
    with Cons show ?thesis by (simp add: spec_turn_def)
  qed
qed

text \<open>
  Claim C7. \<open>run\<close> takes the queens in the order of the overlord's list, which the
  constructor sorts by name and which holds every creep it was given; each queen's turn
  changes her and produces events as the specification's turn does, and the events of the
  turns follow one another in that order.
\<close>

theorem dispatcher:
  "run B this = (map (\<lambda>q. fst (spec_turn B this q)) (queens this),
                 concat (map (\<lambda>q. snd (spec_turn B this q)) (queens this)))
   \<and> queens (BunkerQueenOverlord B col zergs) = sort_key name zergs
   \<and> sorted (map name (queens (BunkerQueenOverlord B col zergs)))
   \<and> set (queens (BunkerQueenOverlord B col zergs)) = set zergs
   \<and> length (queens (BunkerQueenOverlord B col zergs)) = length zergs"
  by (simp add: run_def runLoop_turns BunkerQueenOverlord_def Let_def)


text \<open>
  The theorem at the example: queen a gets the withdraw manifest although the extension
  assigned to her also asks for energy, queen b the supply manifest, and queen c, who has
  no assignment, goes to a charging spot.
\<close>

theorem dispatcher_witness:
  "map name (queens ex_overlord) = [''a'', ''b'', ''c'']
   \<and> snd (run ex_bunker ex_overlord)
       = snd (spec_turn ex_bunker ex_overlord ex_queenA) @ snd (spec_turn ex_bunker ex_overlord ex_queenB)
         @ snd (spec_turn ex_bunker ex_overlord ex_queenC)
   \<and> snd (run ex_bunker ex_overlord)
       = [Run ''a'', Run ''b'', GoTo ''c'' (RoomPosition 25 26 ''W1N1''), Run ''c'']
   \<and> map task (fst (run ex_bunker ex_overlord))
       = [Some (Tasks_chain [Tasks_transferAll ex_storage, Tasks_withdraw ex_tower ''energy'' 50,
                             Tasks_transferAll ex_storage]),
          Some (Tasks_chain [Tasks_withdraw ex_battery ''energy'' 30, Tasks_withdraw ex_battery ''H'' 10,
                             Tasks_transfer ex_spawn ''energy'' 30, Tasks_transfer ex_lab ''H'' 10]),
          None]"
proof -
  have q: "queens ex_overlord = [ex_queenA, ex_queenB, ex_queenC]" by code_simp
  have n: "map name [ex_queenA, ex_queenB, ex_queenC] = [''a'', ''b'', ''c'']" by code_simp
  have a: "spec_turn ex_bunker ex_overlord ex_queenA
     = (ex_queenA\<lparr>task := Some (Tasks_chain [Tasks_transferAll ex_storage,
           Tasks_withdraw ex_tower ''energy'' 50, Tasks_transferAll ex_storage])\<rparr>, [Run ''a''])"
    by code_simp
  have b: "spec_turn ex_bunker ex_overlord ex_queenB
     = (ex_queenB\<lparr>task := Some (Tasks_chain [Tasks_withdraw ex_battery ''energy'' 30,
           Tasks_withdraw ex_battery ''H'' 10, Tasks_transfer ex_spawn ''energy'' 30,
           Tasks_transfer ex_lab ''H'' 10])\<rparr>, [Run ''b''])"
    by code_simp
  have c: "spec_turn ex_bunker ex_overlord ex_queenC
     = (ex_queenC, [GoTo ''c'' (RoomPosition 25 26 ''W1N1''), Run ''c''])"
    by code_simp
  have tc: "task ex_queenC = None" by code_simp
  from dispatcher[of ex_bunker ex_overlord]
  have r: "run ex_bunker ex_overlord
     = (map (\<lambda>q. fst (spec_turn ex_bunker ex_overlord q)) [ex_queenA, ex_queenB, ex_queenC],
        concat (map (\<lambda>q. snd (spec_turn ex_bunker ex_overlord q)) [ex_queenA, ex_queenB, ex_queenC]))"
    unfolding q by blast
  show ?thesis unfolding r q n by (simp add: a b c tc)
qed

section \<open>The idle handler\<close>

lemma closestLoop_keeps: "closestLoop p objs (Some a) \<noteq> None"
  by (induction objs arbitrary: a) (auto split: option.splits prod.splits)

lemma closestLoop_None:
  "closestLoop p objs acc = None \<longleftrightarrow> acc = None \<and> (\<forall>i \<in> set objs. getRangeTo p i = None)"
proof (induction objs arbitrary: acc)
  case Nil
  then show ?case by simp
next
  case (Cons i objs)
  show ?case
  proof (cases acc)
    case None
    with Cons show ?thesis
      by (cases "getRangeTo p i") (simp_all add: closestLoop_keeps)
  next
    case (Some a)
    then show ?thesis
      using closestLoop_keeps[of p "i # objs" a] by simp
  qed
qed

lemma closestLoop_Some:
  "closestLoop p objs acc = Some (c, d) \<Longrightarrow>
   (\<forall>c0 d0. acc = Some (c0, d0) \<longrightarrow> getRangeTo p c0 = Some d0) \<Longrightarrow>
   getRangeTo p c = Some d
   \<and> (c \<in> set objs \<or> acc = Some (c, d))
   \<and> (\<forall>i \<in> set objs. \<forall>d'. getRangeTo p i = Some d' \<longrightarrow> d \<le> d')
   \<and> (\<forall>c0 d0. acc = Some (c0, d0) \<longrightarrow> d \<le> d0)"
proof (induction objs arbitrary: acc)
  case Nil
  then show ?case by simp
next
  case (Cons i objs)
  show ?case
  proof (cases "getRangeTo p i")
    case None
    with Cons.prems Cons.IH[of acc] show ?thesis by simp
  next
    case (Some rng)
    show ?thesis
    proof (cases acc)
      case None
      with Some Cons.prems Cons.IH[of "Some (i, rng)"] show ?thesis by auto
    next
      case (Some a)
      obtain c0 d0 where a: "a = (c0, d0)" by (cases a)
      show ?thesis
      proof (cases "rng < d0")
        case True
        with \<open>getRangeTo p i = Some rng\<close> Some a Cons.prems Cons.IH[of "Some (i, rng)"]
        show ?thesis by auto
      next
        case False
        with \<open>getRangeTo p i = Some rng\<close> Some a Cons.prems Cons.IH[of acc]
        show ?thesis by auto
      qed
    qed
  qed
qed

lemma findClosestByRange_Some:
  "findClosestByRange p objs = Some c \<Longrightarrow>
   c \<in> set objs \<and> (\<exists>d. getRangeTo p c = Some d
       \<and> (\<forall>i \<in> set objs. \<forall>d'. getRangeTo p i = Some d' \<longrightarrow> d \<le> d'))"
proof -
  assume "findClosestByRange p objs = Some c"
  then obtain d where "closestLoop p objs None = Some (c, d)"
    by (auto simp: findClosestByRange_def)
  from closestLoop_Some[OF this] show ?thesis by auto
qed

lemma findClosestByRange_None:
  "findClosestByRange p objs = None \<longleftrightarrow> (\<forall>i \<in> set objs. getRangeTo p i = None)"
  by (simp add: findClosestByRange_def closestLoop_None)

text \<open>
  Claim C8. The idle actions measure from the position of the first assigned structure, or
  from the queen's own position when nothing is assigned to her. Either they are the single
  directive to go to a charging spot of the bunker that is in range of that origin and no
  farther from it than any other charging spot; or no charging spot is in range of the
  origin (none is defined, or all are in other rooms), and they are the warning followed by
  the directive to go to the queen's own position. They never hold anything else.
\<close>

theorem idle_handler:
  "chargingOrigin this queen = (case assigned this queen of [] \<Rightarrow> pos queen | struc # rest \<Rightarrow> pos struc)
   \<and> ((\<exists>spot \<in> set (map (getPosFromBunkerCoord B) (bunkerChargingSpots B)).
          idleActions B this queen = [GoTo (name queen) spot]
          \<and> (\<exists>d. getRangeTo (chargingOrigin this queen) spot = Some d
                \<and> (\<forall>c \<in> set (map (getPosFromBunkerCoord B) (bunkerChargingSpots B)).
                      \<forall>d'. getRangeTo (chargingOrigin this queen) c = Some d' \<longrightarrow> d \<le> d')))
        \<or> ((\<forall>c \<in> set (map (getPosFromBunkerCoord B) (bunkerChargingSpots B)).
                getRangeTo (chargingOrigin this queen) c = None)
            \<and> idleActions B this queen
                = [Log (NoChargingSpot (pos queen)), GoTo (name queen) (pos queen)]))"
proof
  show "chargingOrigin this queen = (case assigned this queen of [] \<Rightarrow> pos queen | struc # rest \<Rightarrow> pos struc)"
    by (cases "assigned this queen") (simp_all add: chargingOrigin_def)
next
  let ?spots = "map (getPosFromBunkerCoord B) (bunkerChargingSpots B)"
  let ?o = "chargingOrigin this queen"
  show "(\<exists>spot \<in> set ?spots.
          idleActions B this queen = [GoTo (name queen) spot]
          \<and> (\<exists>d. getRangeTo ?o spot = Some d
                \<and> (\<forall>c \<in> set ?spots. \<forall>d'. getRangeTo ?o c = Some d' \<longrightarrow> d \<le> d')))
        \<or> ((\<forall>c \<in> set ?spots. getRangeTo ?o c = None)
            \<and> idleActions B this queen
                = [Log (NoChargingSpot (pos queen)), GoTo (name queen) (pos queen)])"
  proof (cases "findClosestByRange ?o ?spots")
    case None
    then have "\<forall>c \<in> set ?spots. getRangeTo ?o c = None"
      by (simp only: findClosestByRange_None)
    moreover have "idleActions B this queen
                = [Log (NoChargingSpot (pos queen)), GoTo (name queen) (pos queen)]"
      using None by (simp add: idleActions_def getChargingSpot_def)
    ultimately show ?thesis by blast
  next
    case (Some spot)
    from findClosestByRange_Some[OF Some]
    have "spot \<in> set ?spots" and "\<exists>d. getRangeTo ?o spot = Some d
                \<and> (\<forall>c \<in> set ?spots. \<forall>d'. getRangeTo ?o c = Some d' \<longrightarrow> d \<le> d')"
      by blast+
    moreover have "idleActions B this queen = [GoTo (name queen) spot]"
      using Some by (simp add: idleActions_def getChargingSpot_def)
    ultimately show ?thesis by blast
  qed
qed


text \<open>
  The theorem at queen a of the example, whose first assigned structure is the extension,
  and at the same queen for a bunker without charging spots.
\<close>

theorem idle_handler_witness:
  "chargingOrigin ex_overlord ex_queenA = pos ex_extension
   \<and> idleActions ex_bunker ex_overlord ex_queenA = [GoTo ''a'' (RoomPosition 25 26 ''W1N1'')]
   \<and> getRangeTo (pos ex_extension) (RoomPosition 25 26 ''W1N1'') = Some 1
   \<and> getRangeTo (pos ex_extension) (RoomPosition 25 24 ''W1N1'') = Some 2
   \<and> (\<exists>spot \<in> set [RoomPosition 25 24 ''W1N1'', RoomPosition 25 26 ''W1N1''].
         idleActions ex_bunker ex_overlord ex_queenA = [GoTo (name ex_queenA) spot])
   \<and> idleActions (ex_bunker\<lparr>bunkerChargingSpots := []\<rparr>) ex_overlord ex_queenA
       = [Log (NoChargingSpot (pos ex_queenA)), GoTo (name ex_queenA) (pos ex_queenA)]"
proof -
  have o: "chargingOrigin ex_overlord ex_queenA = pos ex_extension" by code_simp
  have i: "idleActions ex_bunker ex_overlord ex_queenA = [GoTo ''a'' (RoomPosition 25 26 ''W1N1'')]"
    by code_simp
  have r: "getRangeTo (pos ex_extension) (RoomPosition 25 26 ''W1N1'') = Some 1"
    "getRangeTo (pos ex_extension) (RoomPosition 25 24 ''W1N1'') = Some 2"
    by code_simp+
  have s: "map (getPosFromBunkerCoord ex_bunker) (bunkerChargingSpots ex_bunker)
           = [RoomPosition 25 24 ''W1N1'', RoomPosition 25 26 ''W1N1'']" by code_simp
  have e: "map (getPosFromBunkerCoord (ex_bunker\<lparr>bunkerChargingSpots := []\<rparr>))
              (bunkerChargingSpots (ex_bunker\<lparr>bunkerChargingSpots := []\<rparr>)) = []" by simp
  from idle_handler[of ex_overlord ex_queenA ex_bunker]
  have 1: "\<exists>spot \<in> set [RoomPosition 25 24 ''W1N1'', RoomPosition 25 26 ''W1N1''].
         idleActions ex_bunker ex_overlord ex_queenA = [GoTo (name ex_queenA) spot]"
    unfolding s using i by auto
  from idle_handler[of ex_overlord ex_queenA "ex_bunker\<lparr>bunkerChargingSpots := []\<rparr>"]
  have 2: "idleActions (ex_bunker\<lparr>bunkerChargingSpots := []\<rparr>) ex_overlord ex_queenA
       = [Log (NoChargingSpot (pos ex_queenA)), GoTo (name ex_queenA) (pos ex_queenA)]"
    unfolding e by simp
  from o i r 1 2 show ?thesis by (intro conjI)
qed

section \<open>Zone assignment\<close>

lemma zipObject_names:
  "zipObject (map (\<lambda>queen. (name queen, [])) qs) nm = (if nm \<in> name ` set qs then Some [] else None)"
  by (induction qs) (auto split: option.splits)

lemma assignLoop_lookup:
  "asg nm = Some old \<Longrightarrow>
   assignLoop activeQueens i zones asg nm = Some (old @ spec_zones nm activeQueens i zones)"
proof (induction zones arbitrary: i asg old)
  case Nil
  then show ?case by simp
next
  case (Cons zone rest)
  let ?queen = "activeQueens ! (i mod length activeQueens)"
  have step: "assignLoop activeQueens i (zone # rest) asg nm =
      assignLoop activeQueens (i + 1) rest
        (asg(name ?queen \<mapsto> (case asg (name ?queen) of None \<Rightarrow> [] | Some strucs \<Rightarrow> strucs) @ zone)) nm"
    by (simp add: Let_def)
  show ?case
  proof (cases "name ?queen = nm")
    case True
    have "assignLoop activeQueens (i + 1) rest
        (asg(name ?queen \<mapsto> (case asg (name ?queen) of None \<Rightarrow> [] | Some strucs \<Rightarrow> strucs) @ zone)) nm
        = Some ((old @ zone) @ spec_zones nm activeQueens (i + 1) rest)"
      by (rule Cons.IH) (simp add: True Cons.prems)
    also have "\<dots> = Some (old @ spec_zones nm activeQueens i (zone # rest))"
      using True by simp
    finally show ?thesis unfolding step .
  next
    case False
    have "assignLoop activeQueens (i + 1) rest
        (asg(name ?queen \<mapsto> (case asg (name ?queen) of None \<Rightarrow> [] | Some strucs \<Rightarrow> strucs) @ zone)) nm
        = Some (old @ spec_zones nm activeQueens (i + 1) rest)"
      by (rule Cons.IH) (use False Cons.prems in auto)
    also have "\<dots> = Some (old @ spec_zones nm activeQueens i (zone # rest))"
      using False by simp
    finally show ?thesis unfolding step .
  qed
qed

lemma assignments_constructed:
  assumes "q \<in> set zergs"
  shows "assignments (BunkerQueenOverlord B col zergs) (name q) =
     (let this = BunkerQueenOverlord B col zergs;
          activeQueens = filter (\<lambda>queen. \<not> spawning queen) (sort_key name zergs)
      in if activeQueens = [] then Some []
         else Some (spec_zones (name q) activeQueens 0
                [lowerRight (quadrants this), upperLeft (quadrants this),
                 lowerLeft (quadrants this), upperRight (quadrants this)]))"
proof -
  have z: "zipObject (map (\<lambda>queen. (name queen, [])) (sort_key name zergs)) (name q) = Some []"
    using assms by (simp add: zipObject_names)
  show ?thesis
  proof (cases "filter (\<lambda>queen. \<not> spawning queen) (sort_key name zergs) = []")
    case True
    then show ?thesis using z by (simp add: BunkerQueenOverlord_def Let_def)
  next
    case False
    then have "1 \<le> length (filter (\<lambda>queen. \<not> spawning queen) (sort_key name zergs))"
      by (simp add: Suc_le_eq)
    then show ?thesis
      using False
        assignLoop_lookup[where asg="zipObject (map (\<lambda>queen. (name queen, [])) (sort_key name zergs))"
          and nm="name q" and old="[]", OF z]
      by (simp add: BunkerQueenOverlord_def Let_def del: assignLoop.simps spec_zones.simps)
  qed
qed

lemma spec_zones_none:
  "(\<And>i. name (activeAgents ! (i mod length activeAgents)) \<noteq> nm) \<Longrightarrow>
   spec_zones nm activeAgents i zones = []"
  by (induction zones arbitrary: i) simp_all

lemma spec_zones_four:
  "spec_zones nm activeAgents 0 [z0, z1, z2, z3] =
     (if name (activeAgents ! (0 mod length activeAgents)) = nm then z0 else [])
     @ (if name (activeAgents ! (1 mod length activeAgents)) = nm then z1 else [])
     @ (if name (activeAgents ! (2 mod length activeAgents)) = nm then z2 else [])
     @ (if name (activeAgents ! (3 mod length activeAgents)) = nm then z3 else [])"
  by (simp add: numeral_2_eq_2 numeral_3_eq_3)

lemma distinct_active:
  "distinct (map name zergs) \<Longrightarrow>
   distinct (map name (filter (\<lambda>queen. \<not> spawning queen) (sort_key name zergs)))"
  by (rule distinct_map_filter) (simp add: distinct_map)

lemma active_name_index:
  assumes "distinct (map name active)" "j < length active" "k < length active"
  shows "name (active ! j) = name (active ! k) \<longleftrightarrow> j = k"
  using assms nth_eq_iff_index_eq[of "map name active" j k] by simp

text \<open>
  Claim C4. For the overlord its constructor builds from creeps of distinct names, with the
  active queens those of the name-sorted list that are not spawning: the zones are taken in
  the order lowerRight, upperLeft, lowerLeft, upperRight, and the active queen of index
  \<open>k\<close> is assigned, in that order, the zones whose index is \<open>k\<close> modulo the number of
  active queens; without active queens every queen is assigned the empty list, and a
  spawning queen always is. With two active queens the first has lowerRight and lowerLeft
  and the second upperLeft and upperRight.
\<close>

theorem zone_assignment:
  assumes distinct: "distinct (map name zergs)"
      and built: "this = BunkerQueenOverlord B col zergs"
      and active: "activeQueens = filter (\<lambda>queen. \<not> spawning queen) (queens this)"
  shows "queens this = sort_key name zergs
       \<and> (activeQueens = [] \<longrightarrow> (\<forall>q \<in> set zergs. assignments this (name q) = Some []))
       \<and> (\<forall>q \<in> set zergs. spawning q \<longrightarrow> assignments this (name q) = Some [])
       \<and> (\<forall>k < length activeQueens.
             assignments this (name (activeQueens ! k)) =
               Some ((if 0 mod length activeQueens = k then lowerRight (quadrants this) else [])
                   @ (if 1 mod length activeQueens = k then upperLeft (quadrants this) else [])
                   @ (if 2 mod length activeQueens = k then lowerLeft (quadrants this) else [])
                   @ (if 3 mod length activeQueens = k then upperRight (quadrants this) else [])))
       \<and> (length activeQueens = 2 \<longrightarrow>
             assignments this (name (activeQueens ! 0))
               = Some (lowerRight (quadrants this) @ lowerLeft (quadrants this))
             \<and> assignments this (name (activeQueens ! 1))
               = Some (upperLeft (quadrants this) @ upperRight (quadrants this)))"
proof -
  have q: "queens this = sort_key name zergs"
    by (simp add: built BunkerQueenOverlord_def Let_def)
  have act: "activeQueens = filter (\<lambda>queen. \<not> spawning queen) (sort_key name zergs)"
    by (simp add: active q)
  have d: "distinct (map name activeQueens)"
    unfolding act by (rule distinct_active[OF distinct])
  have sub: "set activeQueens \<subseteq> set zergs" by (auto simp: act)
  let ?zones = "[lowerRight (quadrants this), upperLeft (quadrants this),
                 lowerLeft (quadrants this), upperRight (quadrants this)]"
  have asg: "assignments this (name q) =
      (if activeQueens = [] then Some [] else Some (spec_zones (name q) activeQueens 0 ?zones))"
    if "q \<in> set zergs" for q
    using assignments_constructed[OF that, of B col] by (simp add: built act Let_def)
  have 2: "activeQueens = [] \<longrightarrow> (\<forall>q \<in> set zergs. assignments this (name q) = Some [])"
    using asg by simp
  have 3: "\<forall>q \<in> set zergs. spawning q \<longrightarrow> assignments this (name q) = Some []"
  proof (intro ballI impI)
    fix q assume qz: "q \<in> set zergs" and sp: "spawning q"
    show "assignments this (name q) = Some []"
    proof (cases "activeQueens = []")
      case True
      with asg[OF qz] show ?thesis by simp
    next
      case False
      have other: "name a \<noteq> name q" if a: "a \<in> set activeQueens" for a
      proof
        assume e: "name a = name q"
        have "a \<in> set zergs" using a sub by blast
        with qz e distinct have "a = q" by (simp add: distinct_map inj_on_def)
        with a sp show False by (simp add: act)
      qed
      have m: "activeQueens ! (i mod length activeQueens) \<in> set activeQueens" for i
        using False by simp
      have "spec_zones (name q) activeQueens 0 ?zones = []"
        using other[OF m] by (rule spec_zones_none)
      with asg[OF qz] False show ?thesis by simp
    qed
  qed
  have 4: "\<forall>k < length activeQueens.
             assignments this (name (activeQueens ! k)) =
               Some ((if 0 mod length activeQueens = k then lowerRight (quadrants this) else [])
                   @ (if 1 mod length activeQueens = k then upperLeft (quadrants this) else [])
                   @ (if 2 mod length activeQueens = k then lowerLeft (quadrants this) else [])
                   @ (if 3 mod length activeQueens = k then upperRight (quadrants this) else []))"
  proof (intro allI impI)
    fix k assume k: "k < length activeQueens"
    then have ne: "activeQueens \<noteq> []" by auto
    have kz: "activeQueens ! k \<in> set zergs" using k sub by (meson nth_mem subsetD)
    have idx: "name (activeQueens ! (i mod length activeQueens)) = name (activeQueens ! k)
                 \<longleftrightarrow> i mod length activeQueens = k" for i
    proof -
      from k have "0 < length activeQueens" by arith
      then have "i mod length activeQueens < length activeQueens" by simp
      from active_name_index[OF d this k] show ?thesis .
    qed
    have sz: "spec_zones (name (activeQueens ! k)) activeQueens 0 ?zones =
               (if 0 mod length activeQueens = k then lowerRight (quadrants this) else [])
             @ (if 1 mod length activeQueens = k then upperLeft (quadrants this) else [])
             @ (if 2 mod length activeQueens = k then lowerLeft (quadrants this) else [])
             @ (if 3 mod length activeQueens = k then upperRight (quadrants this) else [])"
      unfolding spec_zones_four idx ..
    from asg[OF kz] ne
    have "assignments this (name (activeQueens ! k))
            = Some (spec_zones (name (activeQueens ! k)) activeQueens 0 ?zones)"
      by (simp del: spec_zones.simps)
    then show "assignments this (name (activeQueens ! k)) =
               Some ((if 0 mod length activeQueens = k then lowerRight (quadrants this) else [])
                   @ (if 1 mod length activeQueens = k then upperLeft (quadrants this) else [])
                   @ (if 2 mod length activeQueens = k then lowerLeft (quadrants this) else [])
                   @ (if 3 mod length activeQueens = k then upperRight (quadrants this) else []))"
      unfolding sz .
  qed
  have 5: "length activeQueens = 2 \<longrightarrow>
             assignments this (name (activeQueens ! 0))
               = Some (lowerRight (quadrants this) @ lowerLeft (quadrants this))
             \<and> assignments this (name (activeQueens ! 1))
               = Some (upperLeft (quadrants this) @ upperRight (quadrants this))"
  proof
    assume l: "length activeQueens = 2"
    from 4 l have "assignments this (name (activeQueens ! 0)) =
               Some ((if 0 mod length activeQueens = 0 then lowerRight (quadrants this) else [])
                   @ (if 1 mod length activeQueens = 0 then upperLeft (quadrants this) else [])
                   @ (if 2 mod length activeQueens = 0 then lowerLeft (quadrants this) else [])
                   @ (if 3 mod length activeQueens = 0 then upperRight (quadrants this) else []))"
      by simp
    moreover from 4 l have "assignments this (name (activeQueens ! 1)) =
               Some ((if 0 mod length activeQueens = 1 then lowerRight (quadrants this) else [])
                   @ (if 1 mod length activeQueens = 1 then upperLeft (quadrants this) else [])
                   @ (if 2 mod length activeQueens = 1 then lowerLeft (quadrants this) else [])
                   @ (if 3 mod length activeQueens = 1 then upperRight (quadrants this) else []))"
      by simp
    ultimately show "assignments this (name (activeQueens ! 0))
               = Some (lowerRight (quadrants this) @ lowerLeft (quadrants this))
             \<and> assignments this (name (activeQueens ! 1))
               = Some (upperLeft (quadrants this) @ upperRight (quadrants this))"
      by (simp add: l)
  qed
  from q 2 3 4 5 show ?thesis by (intro conjI)
qed


text \<open>
  The theorem at the example, where a and b are active and c is spawning.
\<close>

theorem zone_assignment_witness:
  "distinct (map name [ex_queenB, ex_queenC, ex_queenA])
   \<and> queens ex_overlord = [ex_queenA, ex_queenB, ex_queenC]
   \<and> filter (\<lambda>queen. \<not> spawning queen) (queens ex_overlord) = [ex_queenA, ex_queenB]
   \<and> assignments ex_overlord (name ex_queenA)
        = Some (lowerRight (quadrants ex_overlord) @ lowerLeft (quadrants ex_overlord))
   \<and> assignments ex_overlord (name ex_queenB)
        = Some (upperLeft (quadrants ex_overlord) @ upperRight (quadrants ex_overlord))
   \<and> assignments ex_overlord (name ex_queenC) = Some []
   \<and> lowerRight (quadrants ex_overlord) @ lowerLeft (quadrants ex_overlord) = [ex_extension, ex_tower]
   \<and> upperLeft (quadrants ex_overlord) @ upperRight (quadrants ex_overlord) = [ex_spawn, ex_lab]"
proof -
  have d: "distinct (map name [ex_queenB, ex_queenC, ex_queenA])" by code_simp
  have b: "ex_overlord = BunkerQueenOverlord ex_bunker ex_colony [ex_queenB, ex_queenC, ex_queenA]"
    by (simp add: ex_overlord_def ex_overlord_of_def)
  have q: "queens ex_overlord = [ex_queenA, ex_queenB, ex_queenC]" by code_simp
  have a: "[ex_queenA, ex_queenB] = filter (\<lambda>queen. \<not> spawning queen) (queens ex_overlord)"
    by code_simp
  have c: "ex_queenC \<in> set [ex_queenB, ex_queenC, ex_queenA]" "spawning ex_queenC" by code_simp+
  have z: "lowerRight (quadrants ex_overlord) @ lowerLeft (quadrants ex_overlord) = [ex_extension, ex_tower]"
    "upperLeft (quadrants ex_overlord) @ upperRight (quadrants ex_overlord) = [ex_spawn, ex_lab]"
    by code_simp+
  note th = zone_assignment[OF d b a]
  from th have 1: "assignments ex_overlord (name ex_queenA)
        = Some (lowerRight (quadrants ex_overlord) @ lowerLeft (quadrants ex_overlord))"
    and 2: "assignments ex_overlord (name ex_queenB)
        = Some (upperLeft (quadrants ex_overlord) @ upperRight (quadrants ex_overlord))"
    by simp_all
  from th c have 3: "assignments ex_overlord (name ex_queenC) = Some []" by blast
  from d q a[symmetric] 1 2 3 z show ?thesis by (intro conjI)
qed


section \<open>The zones\<close>

lemma quadrantLoop_concat:
  "quadrantLoop col ps strucs =
     strucs @ concat (map (\<lambda>p. case supplyStructureAt col p of Some s \<Rightarrow> [s] | None \<Rightarrow> []) ps)"
  by (induction ps arbitrary: strucs) (simp_all add: supplyStructureAt_def split: option.splits)

lemma computeQuadrant_concat:
  "computeQuadrant B col quadrant =
     concat (map (\<lambda>c. case supplyStructureAt col (getPosFromBunkerCoord B c) of
                          Some s \<Rightarrow> [s] | None \<Rightarrow> []) quadrant)"
  by (simp add: computeQuadrant_def quadrantLoop_concat comp_def)

lemma supplyStructureAt_Some:
  "supplyStructureAt col p = Some s \<Longrightarrow>
   isSupplyStructure s \<and> s \<in> set (roomStructures col) \<and> pos s = p"
  by (auto simp: supplyStructureAt_def lookFor_def find_Some_iff dest: nth_mem)

lemma supplyStructureAt_iff:
  "supplyStructureAt col p = Some s \<longleftrightarrow> p = pos s \<and> supplyStructureAt col (pos s) = Some s"
  using supplyStructureAt_Some by auto

lemma computeQuadrant_append:
  "computeQuadrant B col (xs @ ys) = computeQuadrant B col xs @ computeQuadrant B col ys"
  by (simp add: computeQuadrant_concat)

lemma count_computeQuadrant:
  "count_list (computeQuadrant B col quadrant) s =
     (if supplyStructureAt col (pos s) = Some s
      then count_list (map (getPosFromBunkerCoord B) quadrant) (pos s) else 0)"
proof (induction quadrant)
  case Nil
  then show ?case by (simp add: computeQuadrant_concat)
next
  case (Cons c rest)
  have split: "computeQuadrant B col (c # rest) = computeQuadrant B col [c] @ computeQuadrant B col rest"
    using computeQuadrant_append[of B col "[c]" rest] by simp
  have one: "count_list (computeQuadrant B col [c]) s =
      (if supplyStructureAt col (pos s) = Some s \<and> getPosFromBunkerCoord B c = pos s then 1 else 0)"
    using supplyStructureAt_iff[of col "getPosFromBunkerCoord B c" s]
    by (auto simp: computeQuadrant_concat split: option.splits)
  show ?case unfolding split by (simp add: one Cons)
qed


lemma count_list_distinct: "distinct xs \<Longrightarrow> x \<in> set xs \<Longrightarrow> count_list xs x = 1"
  by (induction xs) (auto simp: count_notin)

lemma count_zoneStructures:
  "count_list (zoneStructures (BunkerQueenOverlord B col zergs)) s =
     (if supplyStructureAt col (pos s) = Some s then count_list (zoneTiles B) (pos s) else 0)"
  by (simp add: zoneStructures_def zoneTiles_def BunkerQueenOverlord_def Let_def
      count_computeQuadrant)

text \<open>
  Claim C9, as amended. Every structure of a quadrant list has one of the four roles, is a
  structure of the room and is the first structure with such a role on the tile of one of
  the quadrant's coordinates; a coordinate on whose tile no structure has such a role can be
  dropped from the fill order without changing the list. A structure occurs in the four
  zones as often as the fill orders name its tile if it is the first with such a role on
  its tile, and not at all otherwise: exactly once when the fill orders name distinct tiles
  and its tile is among them, never when its tile is not.
\<close>

theorem zone_partition:
  assumes built: "this = BunkerQueenOverlord B col zergs"
  shows "(\<forall>z \<in> set (computeQuadrant B col quadrant).
            isSupplyStructure z \<and> z \<in> set (roomStructures col)
            \<and> pos z \<in> getPosFromBunkerCoord B ` set quadrant
            \<and> supplyStructureAt col (pos z) = Some z)
       \<and> (supplyStructureAt col (getPosFromBunkerCoord B c) = None \<longrightarrow>
            computeQuadrant B col (before @ c # after) = computeQuadrant B col (before @ after))
       \<and> count_list (zoneStructures this) s =
            (if supplyStructureAt col (pos s) = Some s then count_list (zoneTiles B) (pos s) else 0)
       \<and> (distinct (zoneTiles B) \<and> supplyStructureAt col (pos s) = Some s \<and> pos s \<in> set (zoneTiles B) \<longrightarrow>
            count_list (zoneStructures this) s = 1)
       \<and> (pos s \<notin> set (zoneTiles B) \<longrightarrow> s \<notin> set (zoneStructures this))"
proof -
  have 1: "\<forall>z \<in> set (computeQuadrant B col quadrant).
            isSupplyStructure z \<and> z \<in> set (roomStructures col)
            \<and> pos z \<in> getPosFromBunkerCoord B ` set quadrant
            \<and> supplyStructureAt col (pos z) = Some z"
  proof
    fix z assume "z \<in> set (computeQuadrant B col quadrant)"
    then obtain c where c: "c \<in> set quadrant"
      and z: "supplyStructureAt col (getPosFromBunkerCoord B c) = Some z"
      by (auto simp: computeQuadrant_concat split: option.splits)
    from supplyStructureAt_Some[OF z] c z
    show "isSupplyStructure z \<and> z \<in> set (roomStructures col)
            \<and> pos z \<in> getPosFromBunkerCoord B ` set quadrant
            \<and> supplyStructureAt col (pos z) = Some z"
      by auto
  qed
  have 2: "supplyStructureAt col (getPosFromBunkerCoord B c) = None \<longrightarrow>
            computeQuadrant B col (before @ c # after) = computeQuadrant B col (before @ after)"
    by (simp add: computeQuadrant_concat)
  have 3: "count_list (zoneStructures this) s =
            (if supplyStructureAt col (pos s) = Some s then count_list (zoneTiles B) (pos s) else 0)"
    unfolding built by (rule count_zoneStructures)
  have 4: "distinct (zoneTiles B) \<and> supplyStructureAt col (pos s) = Some s \<and> pos s \<in> set (zoneTiles B) \<longrightarrow>
            count_list (zoneStructures this) s = 1"
    using 3 count_list_distinct[of "zoneTiles B" "pos s"] by simp
  have 5: "pos s \<notin> set (zoneTiles B) \<longrightarrow> s \<notin> set (zoneStructures this)"
  proof
    assume "pos s \<notin> set (zoneTiles B)"
    then have "count_list (zoneTiles B) (pos s) = 0" by (rule count_notin)
    with 3 have "count_list (zoneStructures this) s = 0" by simp
    then show "s \<notin> set (zoneStructures this)" by (simp add: count_list_0_iff)
  qed
  from 1 2 3 4 5 show ?thesis by (intro conjI)
qed


text \<open>
  The theorem at the example: the extension occurs once, and the second coordinate of the
  lower right fill order, whose tile holds a road, contributes nothing.
\<close>

theorem zone_partition_witness:
  "distinct (zoneTiles ex_bunker)
   \<and> supplyStructureAt ex_colony (pos ex_extension) = Some ex_extension
   \<and> pos ex_extension \<in> set (zoneTiles ex_bunker)
   \<and> count_list (zoneStructures ex_overlord) ex_extension = 1
   \<and> supplyStructureAt ex_colony (getPosFromBunkerCoord ex_bunker (2, 1)) = None
   \<and> computeQuadrant ex_bunker ex_colony ([(1, 1)] @ (2, 1) # [])
        = computeQuadrant ex_bunker ex_colony ([(1, 1)] @ [])
   \<and> computeQuadrant ex_bunker ex_colony [(1, 1), (2, 1)] = [ex_extension]
   \<and> isSupplyStructure ex_extension
   \<and> zoneStructures ex_overlord = [ex_extension, ex_spawn, ex_tower, ex_lab]"
proof -
  have b: "ex_overlord = BunkerQueenOverlord ex_bunker ex_colony [ex_queenB, ex_queenC, ex_queenA]"
    by (simp add: ex_overlord_def ex_overlord_of_def)
  have d: "distinct (zoneTiles ex_bunker)" by code_simp
  have f: "supplyStructureAt ex_colony (pos ex_extension) = Some ex_extension" by code_simp
  have m: "pos ex_extension \<in> set (zoneTiles ex_bunker)" by code_simp
  have r: "supplyStructureAt ex_colony (getPosFromBunkerCoord ex_bunker (2, 1)) = None" by code_simp
  have q: "computeQuadrant ex_bunker ex_colony [(1, 1), (2, 1)] = [ex_extension]" by code_simp
  have z: "zoneStructures ex_overlord = [ex_extension, ex_spawn, ex_tower, ex_lab]" by code_simp
  note th = zone_partition[OF b, of "[(1, 1), (2, 1)]" "(2, 1)" "[(1, 1)]" "[]" ex_extension]
  from th d f m have 1: "count_list (zoneStructures ex_overlord) ex_extension = 1" by blast
  from th r have 2: "computeQuadrant ex_bunker ex_colony ([(1, 1)] @ (2, 1) # [])
        = computeQuadrant ex_bunker ex_colony ([(1, 1)] @ [])" by blast
  from th q have 3: "isSupplyStructure ex_extension" by simp
  from d f m 1 r 2 q 3 z show ?thesis by (intro conjI)
qed

text \<open>
  Claim C9 as stated fails for a structure off the fill orders: the second tower of the
  example room has one of the four roles and is in none of the four zones.
\<close>

theorem zone_partition_counterexample:
  "isSupplyStructure ex_outpost
   \<and> ex_outpost \<in> set (roomStructures ex_colony)
   \<and> ex_outpost \<notin> set (lowerRight (quadrants ex_overlord))
   \<and> ex_outpost \<notin> set (upperLeft (quadrants ex_overlord))
   \<and> ex_outpost \<notin> set (lowerLeft (quadrants ex_overlord))
   \<and> ex_outpost \<notin> set (upperRight (quadrants ex_overlord))"
  by code_simp

end
